theory Spec2Isabelle
  imports Main "HOL-Library.Char_ord" "HOL-Library.List_Lexorder" "HOL-Library.Option_ord"
    "HOL-Library.Sublist" "HOL-Library.Multiset"
begin

section \<open>Text\<close>

text \<open>
  Python's \<open>str\<close> is a sequence of code points. The model reads a \<^typ>\<open>char\<close> as one
  code point below 256, so \<^typ>\<open>string\<close> stands for the texts made of such code points
  and \<^const>\<open>length\<close> counts code points as Python's \<open>len\<close> does. A column that holds
  SQL \<open>NULL\<close> (Python \<open>None\<close>) is \<^const>\<open>None\<close>.
\<close>

definition py_isspace :: "char \<Rightarrow> bool" where
  \<comment> \<open>\<open>str.isspace\<close> below 256; the class \<open>\s\<close> of \<open>re\<close> on \<open>str\<close> is the same set.\<close>
  "py_isspace c =
     (let n = (of_char c :: nat)
      in (9 \<le> n \<and> n \<le> 13) \<or> (28 \<le> n \<and> n \<le> 32) \<or> n = 133 \<or> n = 160)"

definition py_lower_char :: "char \<Rightarrow> char" where
  \<comment> \<open>\<open>str.lower\<close> below 256: A-Z and the capital letters 192-222 except the sign 215.\<close>
  "py_lower_char c =
     (let n = (of_char c :: nat)
      in if (65 \<le> n \<and> n \<le> 90) \<or> (192 \<le> n \<and> n \<le> 222 \<and> n \<noteq> 215)
         then char_of (n + 32) else c)"

definition py_lower :: "string \<Rightarrow> string" where
  "py_lower s = map py_lower_char s"

function sub_spaces :: "string \<Rightarrow> string" where
  \<comment> \<open>\<open>re.sub(r"\s+", " ", s)\<close>: every maximal run of whitespace becomes one space.\<close>
  "sub_spaces [] = []"
| "sub_spaces (c # cs) =
     (if py_isspace c then CHR '' '' # sub_spaces (dropWhile py_isspace cs)
      else c # sub_spaces cs)"
  by pat_completeness auto
termination
  by (relation "measure length") (auto simp: length_dropWhile_le less_Suc_eq_le)

definition py_strip :: "string \<Rightarrow> string" where
  \<comment> \<open>\<open>str.strip()\<close>: whitespace removed at both ends.\<close>
  "py_strip s = rev (dropWhile py_isspace (rev (dropWhile py_isspace s)))"

definition normalize_text :: "string option \<Rightarrow> string" where
  "normalize_text s =
     (case s of
        None \<Rightarrow> []
      | Some t \<Rightarrow> if t = [] then [] else py_strip (sub_spaces t))"

section \<open>Profile rows\<close>

record profile =
  user_id :: int
  photo_filename :: "string option"
  title :: "string option"
  full_name :: "string option"
  highest_qualification :: "string option"
  country :: "string option"
  university :: "string option"
  school_faculty :: "string option"
  position :: "string option"
  supervisor_name :: "string option"
  bio :: "string option"
  skills :: "string option"
  device_access :: "string option"
  updated_at :: "string option"

definition row_to_dict :: "profile option \<Rightarrow> (string \<rightharpoonup> string option)" where
  \<comment> \<open>\<open>dict(row)\<close> on the text columns, the empty dict for no row. The integer key
      \<open>user_id\<close> is never looked up by name in the functions modelled here.\<close>
  "row_to_dict row =
     (case row of
        None \<Rightarrow> Map.empty
      | Some p \<Rightarrow>
          [''photo_filename'' \<mapsto> photo_filename p,
           ''title'' \<mapsto> title p,
           ''full_name'' \<mapsto> full_name p,
           ''highest_qualification'' \<mapsto> highest_qualification p,
           ''country'' \<mapsto> country p,
           ''university'' \<mapsto> university p,
           ''school_faculty'' \<mapsto> school_faculty p,
           ''position'' \<mapsto> position p,
           ''supervisor_name'' \<mapsto> supervisor_name p,
           ''bio'' \<mapsto> bio p,
           ''skills'' \<mapsto> skills p,
           ''device_access'' \<mapsto> device_access p,
           ''updated_at'' \<mapsto> updated_at p])"

definition dict_get :: "(string \<rightharpoonup> string option) \<Rightarrow> string \<Rightarrow> string option" where
  \<comment> \<open>\<open>p.get(k, "")\<close>\<close>
  "dict_get d k = (case d k of None \<Rightarrow> Some [] | Some v \<Rightarrow> v)"

definition required :: "string list" where
  "required =
     [''full_name'', ''highest_qualification'', ''country'', ''university'',
      ''position'', ''bio'', ''skills'']"

definition profile_is_complete :: "profile option \<Rightarrow> bool" where
  "profile_is_complete profile_row =
     (let p = row_to_dict profile_row
      in list_all (\<lambda>k. normalize_text (dict_get p k) \<noteq> []) required)"

section \<open>Database state\<close>

text \<open>
  The tables as \<open>init_db\<close> declares them, each the list of its rows in the order of
  insertion. \<open>users.id\<close> and \<open>messages.id\<close> are \<open>AUTOINCREMENT\<close> keys: SQLite hands
  out one more than the largest key ever used, which it remembers in \<open>sqlite_sequence\<close>.
\<close>

record user =
  u_id :: int
  u_email :: string
  u_password_hash :: string
  u_created_at :: string

record message =
  m_id :: int
  m_sender_id :: int
  m_receiver_id :: int
  m_body :: string
  m_created_at :: string
  m_is_read :: int

record state =
  users :: "user list"
  users_seq :: int
  profiles :: "profile list"
  messages :: "message list"
  messages_seq :: int
  messages_columns :: "string list"
  uploads :: "string list"

text \<open>
  \<open>messages_columns\<close> are the column names of the \<open>messages\<close> table in the database
  file (see the section on start-up); \<open>uploads\<close> are the file names written to the
  upload directory.
\<close>

datatype db_error = OperationalError | IntegrityError

datatype endpoint =
    To_index | To_register | To_login | To_profile_edit | To_profile_card
  | To_view_profile int | To_inbox | To_thread int

datatype page =
    Auth_page
  | Profile_edit_page "profile option"
  | Search_page bool "profile list"
  | Thread_page "message list" int string int

datatype response =
    Redirect endpoint
  | Render page
  | Abort nat
  | Uncaught db_error

record outcome =
  response :: response
  flashed :: "(string \<times> string) list"
  state_after :: state
  opened_db :: bool
  session_user :: "int option"

text \<open>
  An outcome is what one request leaves behind: the response, the messages given to
  \<open>flash\<close> (text and category), the state after the request, whether \<open>get_db()\<close> was
  called, and the value assigned to \<open>session["user_id"]\<close> if any. An exception that
  leaves a handler is \<^const>\<open>Uncaught\<close> (HTTP 500); the connection is closed without
  \<open>commit\<close>, so the statements since the last commit are rolled back.
\<close>

definition reply :: "response \<Rightarrow> (string \<times> string) list \<Rightarrow> state \<Rightarrow> outcome" where
  "reply r fl s =
     \<lparr>response = r, flashed = fl, state_after = s, opened_db = True, session_user = None\<rparr>"

definition get_or_empty :: "(string \<rightharpoonup> string) \<Rightarrow> string \<Rightarrow> string" where
  \<comment> \<open>\<open>request.form.get(k, "")\<close> and \<open>request.args.get(k, "")\<close>\<close>
  "get_or_empty d k = (case d k of None \<Rightarrow> [] | Some v \<Rightarrow> v)"

definition login_required :: "(int \<Rightarrow> state \<Rightarrow> outcome) \<Rightarrow> int option \<Rightarrow> state \<Rightarrow> outcome" where
  \<comment> \<open>the decorator: the second argument is \<open>session.get("user_id")\<close>\<close>
  "login_required view session s =
     (case session of
        None \<Rightarrow>
          (reply (Redirect To_login) [(''Please log in first.'', ''warning'')] s)
            \<lparr>opened_db := False\<rparr>
      | Some uid \<Rightarrow>
          if uid = 0
          then (reply (Redirect To_login) [(''Please log in first.'', ''warning'')] s)
                 \<lparr>opened_db := False\<rparr>
          else view uid s)"

definition fetch_user :: "state \<Rightarrow> int \<Rightarrow> user option" where
  "fetch_user s i = find (\<lambda>u. u_id u = i) (users s)"

definition fetch_profile :: "state \<Rightarrow> int \<Rightarrow> profile option" where
  "fetch_profile s i = find (\<lambda>p. user_id p = i) (profiles s)"

section \<open>Search\<close>

definition sql_fold :: "char \<Rightarrow> char" where
  \<comment> \<open>SQLite's \<open>LIKE\<close> ignores case for the letters A-Z only.\<close>
  "sql_fold c =
     (let n = (of_char c :: nat) in if 65 \<le> n \<and> n \<le> 90 then char_of (n + 32) else c)"

fun like_match :: "string \<Rightarrow> string \<Rightarrow> bool" where
  \<comment> \<open>\<open>text LIKE pattern\<close> with no \<open>ESCAPE\<close>, on a pattern and a text without NUL:
      \<open>%\<close> stands for any run of characters, \<open>_\<close> for any one character.\<close>
  "like_match [] s = (s = [])"
| "like_match (p # ps) [] = (p = CHR ''%'' \<and> like_match ps [])"
| "like_match (p # ps) (c # cs) =
     (if p = CHR ''%'' then like_match ps (c # cs) \<or> like_match (p # ps) cs
      else (p = CHR ''_'' \<or> sql_fold p = sql_fold c) \<and> like_match ps cs)"

definition c_string :: "string \<Rightarrow> string" where
  \<comment> \<open>SQLite's \<open>LIKE\<close> reads its pattern and its text as C strings: up to the first
      NUL character\<close>
  "c_string s = takeWhile (\<lambda>c. c \<noteq> CHR 0x00) s"

definition sql_like :: "string option \<Rightarrow> string \<Rightarrow> bool" where
  \<comment> \<open>\<open>column LIKE ?\<close> in a \<open>WHERE\<close> clause: \<open>NULL LIKE ?\<close> is \<open>NULL\<close>, which selects nothing.\<close>
  "sql_like v pat =
     (case v of None \<Rightarrow> False | Some t \<Rightarrow> like_match (c_string pat) (c_string t))"

definition utf8_length :: "string \<Rightarrow> nat" where
  \<comment> \<open>the bytes of a text in UTF-8, as SQLite stores it: one for a code point below
      128, two for the others below 256\<close>
  "utf8_length s = sum_list (map (\<lambda>c. if (of_char c :: nat) < 128 then 1 else 2) s)"

definition LIKE_PATTERN_LENGTH :: nat where
  \<comment> \<open>SQLite's limit \<open>SQLITE_LIMIT_LIKE_PATTERN_LENGTH\<close>, which the program leaves at
      its default: \<open>LIKE\<close> with a longer pattern, counted in bytes, fails with \<open>LIKE or
      GLOB pattern too complex\<close> whatever the text is, also for \<open>NULL\<close>\<close>
  "LIKE_PATTERN_LENGTH = 50000"

definition order_by_updated_at_desc :: "profile list \<Rightarrow> profile list" where
  \<comment> \<open>\<open>ORDER BY p.updated_at DESC\<close>: texts compare code point by code point, \<open>NULL\<close> is
      below every text. SQLite leaves the order of rows with equal keys open; it gives
      them in the order of the scan, and so does this sort.\<close>
  "order_by_updated_at_desc rows = rev (sort_key updated_at (rev rows))"

definition search_query ::
  "state \<Rightarrow> int \<Rightarrow> string \<Rightarrow> string \<Rightarrow> string \<Rightarrow> db_error + profile list" where
  \<comment> \<open>The assembled statement. The table is scanned in the order of its key \<open>user_id\<close>;
      the terms of the \<open>WHERE\<close> clause are tested in the order written, a row that
      fails one is dropped at once, so the \<open>LIKE\<close> terms are evaluated, and fail on
      a pattern that is too long, only if a row passes the terms before them.\<close>
  "search_query s uid q uni pos =
     (let like = ''%'' @ q @ ''%'';
          rows0 = filter (\<lambda>p. user_id p \<noteq> uid) (sort_key user_id (profiles s));
          rows1 = (if uni \<noteq> [] then filter (\<lambda>p. university p = Some uni) rows0 else rows0);
          rows2 = (if pos \<noteq> [] then filter (\<lambda>p. position p = Some pos) rows1 else rows1)
      in if q \<noteq> []
         then if rows2 \<noteq> [] \<and> LIKE_PATTERN_LENGTH < utf8_length like
              then Inl OperationalError
              else Inr (take 200 (order_by_updated_at_desc
                     (filter (\<lambda>p. sql_like (full_name p) like \<or> sql_like (title p) like \<or>
                                  sql_like (bio p) like \<or> sql_like (skills p) like \<or>
                                  sql_like (device_access p) like \<or>
                                  sql_like (school_faculty p) like \<or>
                                  sql_like (supervisor_name p) like) rows2)))
         else Inr (take 200 (order_by_updated_at_desc rows2)))"

definition search :: "(string \<rightharpoonup> string) \<Rightarrow> int \<Rightarrow> state \<Rightarrow> outcome" where
  "search args uid s =
     (let did_search = (args ''do'' = Some ''1'');
          q = normalize_text (Some (get_or_empty args ''q''));
          uni = normalize_text (Some (get_or_empty args ''university''));
          pos = normalize_text (Some (get_or_empty args ''position''))
      in if did_search
         then (case search_query s uid q uni pos of
                 Inl e \<Rightarrow> reply (Uncaught e) [] s
               | Inr results \<Rightarrow> reply (Render (Search_page did_search results)) [] s)
         else (reply (Render (Search_page did_search [])) [] s)\<lparr>opened_db := False\<rparr>)"

definition search_route :: "(string \<rightharpoonup> string) \<Rightarrow> int option \<Rightarrow> state \<Rightarrow> outcome" where
  "search_route args = login_required (search args)"


subsection \<open>The keyword condition in the words of the specification\<close>

definition no_wildcards :: "string \<Rightarrow> bool" where
  "no_wildcards q = (CHR ''%'' \<notin> set q \<and> CHR ''_'' \<notin> set q)"

definition plain_keyword :: "string \<Rightarrow> bool" where
  \<comment> \<open>neither of the two wildcards of \<open>LIKE\<close> nor NUL occurs in the keyword\<close>
  "plain_keyword q = (CHR ''%'' \<notin> set q \<and> CHR ''_'' \<notin> set q \<and> CHR 0x00 \<notin> set q)"

definition contains_nocase :: "string \<Rightarrow> string option \<Rightarrow> bool" where
  \<comment> \<open>the keyword occurs as a substring in the text of the column up to its first NUL,
      upper and lower case of the letters A-Z taken as equal; nothing occurs in
      \<open>NULL\<close>\<close>
  "contains_nocase q v =
     (case v of
        None \<Rightarrow> False
      | Some t \<Rightarrow> sublist (map sql_fold q) (map sql_fold (c_string t)))"

definition keyword_fields :: "(profile \<Rightarrow> string option) list" where
  "keyword_fields =
     [full_name, title, bio, skills, device_access, school_faculty, supervisor_name]"

definition keyword_occurs :: "string \<Rightarrow> profile \<Rightarrow> bool" where
  "keyword_occurs q p = list_ex (\<lambda>f. contains_nocase q (f p)) keyword_fields"

definition keyword_occurs_as_stated :: "string \<Rightarrow> profile \<Rightarrow> bool" where
  \<comment> \<open>The keyword occurs as a case-insensitive substring of one of the seven columns,
      with the program's own way of ignoring case, \<open>lower()\<close> on both sides, as
      \<open>profile_edit\<close> looks for \<open>student\<close>.\<close>
  "keyword_occurs_as_stated q p =
     list_ex (\<lambda>f. case f p of None \<Rightarrow> False | Some t \<Rightarrow> sublist (py_lower q) (py_lower t))
       keyword_fields"

definition selected :: "int \<Rightarrow> string \<Rightarrow> string \<Rightarrow> string \<Rightarrow> profile \<Rightarrow> bool" where
  \<comment> \<open>the profile is not the searcher's own, the keyword occurs in it, and it passes
      the filters that are not empty\<close>
  "selected uid q uni pos p =
     (user_id p \<noteq> uid \<and> keyword_occurs q p \<and>
      (uni = [] \<or> university p = Some uni) \<and> (pos = [] \<or> position p = Some pos))"

subsection \<open>Sample data\<close>

definition example_profile :: "int \<Rightarrow> string \<Rightarrow> string \<Rightarrow> profile" where
  "example_profile i name stamp =
     \<lparr>user_id = i, photo_filename = None, title = None, full_name = Some name,
      highest_qualification = None, country = None, university = None,
      school_faculty = None, position = None, supervisor_name = None, bio = None,
      skills = None, device_access = None, updated_at = Some stamp\<rparr>"

definition example_state :: state where
  "example_state =
     \<lparr>users = [], users_seq = 0,
      profiles = [example_profile 1 ''Ann'' ''2024-01-01T00:00:00'',
                  example_profile 2 ''Bob'' ''2024-01-02T00:00:00'',
                  example_profile 3 ''Bo'' ''2024-01-03T00:00:00''],
      messages = [], messages_seq = 0, messages_columns = [], uploads = []\<rparr>"

definition accent_state :: state where
  \<comment> \<open>user 2 is called a capital E with an acute accent, code point 201; its lower case is
      code point 233\<close>
  "accent_state =
     \<lparr>users = [], users_seq = 0,
      profiles = [example_profile 1 ''Ann'' ''2024-01-01T00:00:00'',
                  example_profile 2 [CHR 0xC9] ''2024-01-02T00:00:00''],
      messages = [], messages_seq = 0, messages_columns = [], uploads = []\<rparr>"

definition long_keyword :: string where
  \<comment> \<open>49999 times the letter a: between two \<open>%\<close> it is a pattern of 50001 bytes\<close>
  "long_keyword = replicate 49999 CHR ''a''"

definition long_state :: state where
  \<comment> \<open>the biography of user 2 is the long keyword\<close>
  "long_state =
     \<lparr>users = [], users_seq = 0,
      profiles = [example_profile 1 ''Ann'' ''2024-01-01T00:00:00'',
                  (example_profile 2 ''Bob'' ''2024-01-02T00:00:00'')\<lparr>bio := Some long_keyword\<rparr>],
      messages = [], messages_seq = 0, messages_columns = [], uploads = []\<rparr>"


section \<open>Start-up: the tables in the database file\<close>

text \<open>
  A catalog lists the tables of a database file with their column names. Every
  \<open>CREATE TABLE IF NOT EXISTS\<close> leaves a table that is already there as it is. The file
  need not exist: \<open>sqlite3.connect\<close> then creates an empty one.
\<close>

type_synonym catalog = "(string \<times> string list) list"

definition create_table_if_not_exists :: "string \<Rightarrow> string list \<Rightarrow> catalog \<Rightarrow> catalog" where
  "create_table_if_not_exists name cols cat =
     (if map_of cat name = None then cat @ [(name, cols)] else cat)"

definition column_exists :: "catalog \<Rightarrow> string \<Rightarrow> string \<Rightarrow> bool" where
  "column_exists cat table col =
     (case map_of cat table of None \<Rightarrow> False | Some cols \<Rightarrow> col \<in> set cols)"

definition add_column :: "string \<Rightarrow> string \<Rightarrow> catalog \<Rightarrow> catalog" where
  \<comment> \<open>\<open>ALTER TABLE table ADD COLUMN col\<close>\<close>
  "add_column table col cat =
     map (\<lambda>(name, cols). if name = table then (name, cols @ [col]) else (name, cols)) cat"

definition connect :: "catalog option \<Rightarrow> catalog" where
  "connect file = (case file of None \<Rightarrow> [] | Some cat \<Rightarrow> cat)"

definition ensure_schema :: "catalog option \<Rightarrow> catalog" where
  "ensure_schema file =
     create_table_if_not_exists ''messages''
       [''id'', ''sender_id'', ''recipient_id'', ''body'', ''created_at'', ''read_at'']
       (create_table_if_not_exists ''users''
          [''id'', ''email'', ''password_hash'', ''photo_filename'', ''title'', ''full_name'',
           ''country'', ''university'', ''school_faculty'', ''highest_qualification'',
           ''position'', ''supervisor_name'', ''bio'', ''skills'', ''device_access'',
           ''created_at'', ''updated_at'']
          (connect file))"

definition migrations :: "string list" where
  "migrations =
     [''photo_filename'', ''title'', ''full_name'', ''highest_qualification'', ''country'',
      ''university'', ''school_faculty'', ''position'', ''supervisor_name'', ''bio'',
      ''skills'', ''device_access'', ''updated_at'']"

definition init_db :: "catalog option \<Rightarrow> catalog" where
  "init_db file =
     (let cat =
        create_table_if_not_exists ''messages''
          [''id'', ''sender_id'', ''receiver_id'', ''body'', ''created_at'', ''is_read'']
          (create_table_if_not_exists ''profiles''
             [''user_id'', ''photo_filename'', ''title'', ''full_name'',
              ''highest_qualification'', ''country'', ''university'', ''school_faculty'',
              ''position'', ''supervisor_name'', ''bio'', ''skills'', ''device_access'',
              ''updated_at'']
             (create_table_if_not_exists ''users''
                [''id'', ''email'', ''password_hash'', ''created_at'']
                (connect file)))
      in fold (\<lambda>col c. if \<not> column_exists c ''profiles'' col
                         then add_column ''profiles'' col c else c) migrations cat)"

definition reset_db :: "catalog option \<Rightarrow> catalog" where
  \<comment> \<open>the file is deleted if it exists, then \<open>init_db\<close> starts from no file\<close>
  "reset_db file = init_db None"

definition main :: "bool \<Rightarrow> catalog option \<Rightarrow> catalog" where
  \<comment> \<open>Running the module as a program: its body calls \<open>ensure_schema()\<close>, then the
      \<open>__main__\<close> block calls \<open>reset_db()\<close> under \<open>--reset-db\<close> and \<open>init_db()\<close>
      otherwise.\<close>
  "main reset file =
     (let cat = ensure_schema file
      in if reset then reset_db (Some cat) else init_db (Some cat))"

definition columns_of :: "catalog \<Rightarrow> string \<Rightarrow> string list" where
  "columns_of cat table = (case map_of cat table of None \<Rightarrow> [] | Some cols \<Rightarrow> cols)"

definition prepares :: "string list \<Rightarrow> string list \<Rightarrow> bool" where
  \<comment> \<open>A statement compiles only if the table has every column it names; otherwise
      \<open>execute\<close> raises \<open>sqlite3.OperationalError\<close>.\<close>
  "prepares table_columns named = list_all (\<lambda>c. c \<in> set table_columns) named"

definition empty_database :: "catalog \<Rightarrow> state" where
  "empty_database cat =
     \<lparr>users = [], users_seq = 0, profiles = [], messages = [], messages_seq = 0,
      messages_columns = columns_of cat ''messages'', uploads = []\<rparr>"

text \<open>
  The handlers below read and write \<open>users\<close> and \<open>profiles\<close> through columns that both
  ways of starting give these tables (lemma \<open>main_users_profiles\<close>), so their rows are
  typed records. The \<open>messages\<close> table differs between \<open>ensure_schema\<close> and \<open>init_db\<close>,
  so every statement on it is checked against \<open>messages_columns\<close>; the rows of the list
  \<open>messages\<close> are rows of a table with the columns of \<open>init_db\<close>.
\<close>


section \<open>Registration\<close>

definition next_id :: "int list \<Rightarrow> int \<Rightarrow> int" where
  \<comment> \<open>the key \<open>AUTOINCREMENT\<close> gives the next row: one more than the largest key in the
      table and the largest key remembered in \<open>sqlite_sequence\<close>\<close>
  "next_id ids seq = fold max ids seq + 1"

definition new_profile :: "int \<Rightarrow> string \<Rightarrow> profile" where
  \<comment> \<open>\<open>INSERT INTO profiles(user_id, updated_at) VALUES (?,?)\<close>: the other columns are
      \<open>NULL\<close>\<close>
  "new_profile uid now =
     \<lparr>user_id = uid, photo_filename = None, title = None, full_name = None,
      highest_qualification = None, country = None, university = None,
      school_faculty = None, position = None, supervisor_name = None, bio = None,
      skills = None, device_access = None, updated_at = Some now\<rparr>"

definition register :: "bool \<Rightarrow> (string \<rightharpoonup> string) \<Rightarrow> string \<Rightarrow> string \<Rightarrow> state \<Rightarrow> outcome" where
  \<comment> \<open>\<open>post\<close>: the method is POST; \<open>pw_hash\<close>: what \<open>generate_password_hash\<close> returns
      (salted, so not a function of the password); \<open>now\<close>: the clock as ISO text.
      The \<open>SELECT\<close> before the \<open>INSERT\<close> rules out a clash on the unique \<open>email\<close>; the
      insert into \<open>profiles\<close> fails on its primary key if a row of that id is there.\<close>
  "register post form pw_hash now s =
     (if post then
        (let email = py_lower (normalize_text (Some (get_or_empty form ''email'')));
             password = get_or_empty form ''password''
         in if email = [] \<or> password = []
            then (reply (Redirect To_register)
                    [(''Email and password are required.'', ''error'')] s)
                   \<lparr>opened_db := False\<rparr>
            else
              (case find (\<lambda>u. u_email u = email) (users s) of
                 Some existing \<Rightarrow>
                   reply (Redirect To_login)
                     [(''Email already registered. Please log in.'', ''warning'')] s
               | None \<Rightarrow>
                   (let new_id = next_id (map u_id (users s)) (users_seq s);
                        s1 = s\<lparr>users := users s @
                                 [\<lparr>u_id = new_id, u_email = email,
                                   u_password_hash = pw_hash, u_created_at = now\<rparr>],
                               users_seq := new_id\<rparr>
                    in if list_ex (\<lambda>p. user_id p = new_id) (profiles s1)
                       then reply (Uncaught IntegrityError) [] s
                       else (reply (Redirect To_profile_edit)
                               [(''Account created. Please complete your profile.'',
                                 ''success'')]
                               (s1\<lparr>profiles := profiles s1 @ [new_profile new_id now]\<rparr>))
                              \<lparr>session_user := Some new_id\<rparr>)))
      else (reply (Render Auth_page) [] s)\<lparr>opened_db := False\<rparr>)"

section \<open>Messages\<close>

function str_digits :: "int \<Rightarrow> string" where
  \<comment> \<open>the decimal digits of a number that is not negative\<close>
  "str_digits n =
     (if n < 10 then [char_of (48 + n)]
      else str_digits (n div 10) @ [char_of (48 + n mod 10)])"
  by pat_completeness auto
termination
  by (relation "measure nat") auto

declare str_digits.simps [simp del]

definition str_int :: "int \<Rightarrow> string" where
  \<comment> \<open>\<open>str(i)\<close>, as an f-string formats an integer\<close>
  "str_int i = (if i < 0 then CHR ''-'' # str_digits (- i) else str_digits i)"

definition send_message :: "int \<Rightarrow> (string \<rightharpoonup> string) \<Rightarrow> string \<Rightarrow> int \<Rightarrow> state \<Rightarrow> outcome" where
  \<comment> \<open>\<open>target\<close> is the \<open>user_id\<close> of the route, \<open>uid\<close> the session's user. With
      \<open>PRAGMA foreign_keys = ON\<close> the insert fails if the sender has no \<open>users\<close> row;
      the receiver's row was just found.\<close>
  "send_message target form now uid s =
     (if uid = target
      then (reply (Redirect (To_view_profile target))
              [(''You cannot message yourself.'', ''warning'')] s)\<lparr>opened_db := False\<rparr>
      else
        (let body = normalize_text (Some (get_or_empty form ''body''))
         in if body = []
            then (reply (Redirect (To_view_profile target))
                    [(''Message body cannot be empty.'', ''error'')] s)
                   \<lparr>opened_db := False\<rparr>
            else if fetch_user s target = None then reply (Abort 404) [] s
            else if \<not> prepares (messages_columns s)
                        [''sender_id'', ''receiver_id'', ''body'', ''created_at'']
            then reply (Uncaught OperationalError) [] s
            else if fetch_user s uid = None then reply (Uncaught IntegrityError) [] s
            else
              (let new_id = next_id (map m_id (messages s)) (messages_seq s)
               in reply (Redirect (To_thread target)) [(''Message sent.'', ''success'')]
                    (s\<lparr>messages := messages s @
                          [\<lparr>m_id = new_id, m_sender_id = uid, m_receiver_id = target,
                            m_body = body, m_created_at = now, m_is_read = 0\<rparr>],
                        messages_seq := new_id\<rparr>))))"

definition mark_read :: "int \<Rightarrow> int \<Rightarrow> message \<Rightarrow> message" where
  \<comment> \<open>\<open>UPDATE messages SET is_read=1 WHERE receiver_id=? AND sender_id=? AND is_read=0\<close>
      on one row\<close>
  "mark_read receiver sender m =
     (if m_receiver_id m = receiver \<and> m_sender_id m = sender \<and> m_is_read m = 0
      then m\<lparr>m_is_read := 1\<rparr> else m)"

definition thread :: "int \<Rightarrow> int \<Rightarrow> state \<Rightarrow> outcome" where
  \<comment> \<open>\<open>other\<close> is the \<open>user_id\<close> of the route, \<open>uid\<close> the session's user\<close>
  "thread other uid s =
     (if uid = other
      then (reply (Redirect To_inbox) [(''No thread with yourself.'', ''warning'')] s)
             \<lparr>opened_db := False\<rparr>
      else
        (case fetch_profile s other of
           None \<Rightarrow> reply (Abort 404) [] s
         | Some other_prof \<Rightarrow>
             (let other_name =
                    (case full_name other_prof of
                       None \<Rightarrow> ''User '' @ str_int other
                     | Some n \<Rightarrow> if n = [] then ''User '' @ str_int other else n)
              in if \<not> prepares (messages_columns s) [''sender_id'', ''receiver_id'', ''id'']
                 then reply (Uncaught OperationalError) [] s
                 else
                   (let msgs = take 500 (sort_key m_id
                          (filter (\<lambda>m. (m_sender_id m = uid \<and> m_receiver_id m = other) \<or>
                                        (m_sender_id m = other \<and> m_receiver_id m = uid))
                             (messages s)))
                    in if \<not> prepares (messages_columns s)
                                [''is_read'', ''receiver_id'', ''sender_id'']
                       then reply (Uncaught OperationalError) [] s
                       else reply (Render (Thread_page msgs other other_name uid)) []
                              (s\<lparr>messages := map (mark_read uid other) (messages s)\<rparr>)))))"

section \<open>Photo upload and profile edit\<close>

fun split_sep :: "char \<Rightarrow> string \<Rightarrow> string list" where
  \<comment> \<open>\<open>s.split(sep)\<close>\<close>
  "split_sep sep [] = [[]]"
| "split_sep sep (c # cs) =
     (if c = sep then [] # split_sep sep cs
      else (case split_sep sep cs of
              [] \<Rightarrow> [[c]]
            | w # ws \<Rightarrow> (c # w) # ws))"

definition path_name :: "string \<Rightarrow> string" where
  \<comment> \<open>\<open>PurePosixPath(filename).name\<close>: the last component that is neither empty nor
      a single dot\<close>
  "path_name filename =
     (case filter (\<lambda>part. part \<noteq> [] \<and> part \<noteq> ''.'') (split_sep CHR ''/'' filename) of
        [] \<Rightarrow> []
      | part # parts \<Rightarrow> last (part # parts))"

definition path_suffix :: "string \<Rightarrow> string" where
  \<comment> \<open>\<open>Path(filename).suffix\<close>: with \<open>i = name.rfind('.')\<close>, the text \<open>name[i:]\<close> if
      \<open>0 < i < len(name) - 1\<close>, else the empty text\<close>
  "path_suffix filename =
     (let name = path_name filename;
          ext = CHR ''.'' # rev (takeWhile (\<lambda>c. c \<noteq> CHR ''.'') (rev name))
      in if CHR ''.'' \<in> set name \<and> length ext < length name \<and> 1 < length ext
         then ext else [])"

definition ALLOWED_EXTENSIONS :: "string list" where
  "ALLOWED_EXTENSIONS = [''.png'', ''.jpg'', ''.jpeg'', ''.webp'']"

definition allowed_file :: "string \<Rightarrow> bool" where
  "allowed_file filename = (py_lower (path_suffix filename) \<in> set ALLOWED_EXTENSIONS)"

definition save_photo ::
  "(string \<Rightarrow> string) \<Rightarrow> int \<Rightarrow> string option \<Rightarrow> int \<Rightarrow> string list
     \<Rightarrow> (string + string) \<times> string list" where
  \<comment> \<open>\<open>secure_filename\<close> is werkzeug's sanitizer, library code taken as a parameter;
      \<open>now_ts\<close> is \<open>int(datetime.utcnow().timestamp())\<close>; \<open>file_storage\<close> is the client's
      file name, \<open>None\<close> for no file part. The result is the text returned, or \<open>Inl\<close> the
      message of the \<open>ValueError\<close> raised, with the names in the upload directory.\<close>
  "save_photo secure_filename now_ts file_storage uid ups =
     (case file_storage of
        None \<Rightarrow> (Inr [], ups)
      | Some client_name \<Rightarrow>
          if client_name = [] then (Inr [], ups)
          else
            (let filename = secure_filename client_name
             in if filename = [] then (Inr [], ups)
                else if \<not> allowed_file filename
                then (Inl ''Invalid file type. Use PNG/JPG/JPEG/WEBP only.'', ups)
                else
                  (let ext = py_lower (path_suffix filename);
                       out_name = ''user_'' @ str_int uid @ ''_'' @ str_int now_ts @ ext
                   in (Inr out_name, ups @ [out_name]))))"

definition ensure_profile :: "string \<Rightarrow> int \<Rightarrow> state \<Rightarrow> db_error + state" where
  \<comment> \<open>the first lines of \<open>profile_edit\<close>: a user without a profile row gets a blank one,
      committed at once; the foreign key wants a \<open>users\<close> row for it\<close>
  "ensure_profile now uid s =
     (case fetch_profile s uid of
        Some prof \<Rightarrow> Inr s
      | None \<Rightarrow>
          if fetch_user s uid = None then Inl IntegrityError
          else Inr (s\<lparr>profiles := profiles s @ [new_profile uid now]\<rparr>))"

definition profile_edit ::
  "(string \<Rightarrow> string) \<Rightarrow> string \<Rightarrow> int \<Rightarrow> bool \<Rightarrow> (string \<rightharpoonup> string) \<Rightarrow> string option
     \<Rightarrow> int \<Rightarrow> state \<Rightarrow> outcome" where
  \<comment> \<open>\<open>now\<close> and \<open>now_ts\<close> are the clock of the request as ISO text and as seconds;
      \<open>post\<close>: the method is POST; \<open>photo\<close>: the file name of the part \<open>photo\<close>, if any.
      In the \<open>UPDATE\<close>, \<open>COALESCE(?, photo_filename)\<close> keeps the stored name when the
      parameter is \<open>NULL\<close>.\<close>
  "profile_edit secure_filename now now_ts post form photo uid s =
     (case ensure_profile now uid s of
        Inl e \<Rightarrow> reply (Uncaught e) [] s
      | Inr s1 \<Rightarrow>
          if post then
            (case (if photo \<noteq> None \<and> photo \<noteq> Some []
                   then save_photo secure_filename now_ts photo uid (uploads s1)
                   else (Inr [], uploads s1)) of
               (Inl e, ups) \<Rightarrow>
                 reply (Redirect To_profile_edit) [(e, ''error'')] (s1\<lparr>uploads := ups\<rparr>)
             | (Inr fn, ups) \<Rightarrow>
                 (let photo_filename' = (if fn \<noteq> [] then Some fn else None);
                      s2 = s1\<lparr>uploads := ups\<rparr>;
                      title' = normalize_text (Some (get_or_empty form ''title''));
                      full_name' = normalize_text (Some (get_or_empty form ''full_name''));
                      highest_qualification' =
                        normalize_text (Some (get_or_empty form ''highest_qualification''));
                      country' = normalize_text (Some (get_or_empty form ''country''));
                      university' = normalize_text (Some (get_or_empty form ''university''));
                      school_faculty' =
                        normalize_text (Some (get_or_empty form ''school_faculty''));
                      position' = normalize_text (Some (get_or_empty form ''position''));
                      supervisor_name' =
                        normalize_text (Some (get_or_empty form ''supervisor_name''));
                      bio' = normalize_text (Some (get_or_empty form ''bio''));
                      skills' = normalize_text (Some (get_or_empty form ''skills''));
                      device_access' =
                        normalize_text (Some (get_or_empty form ''device_access''))
                  in if \<not> (full_name' \<noteq> [] \<and> highest_qualification' \<noteq> [] \<and>
                            country' \<noteq> [] \<and> university' \<noteq> [] \<and> position' \<noteq> [] \<and>
                            bio' \<noteq> [] \<and> skills' \<noteq> [])
                     then reply (Redirect To_profile_edit)
                            [(''Please fill all required fields (device access is optional).'',
                              ''warning'')] s2
                     else
                       (let supervisor_name'' =
                              (if \<not> sublist ''student'' (py_lower position') then []
                               else supervisor_name')
                        in reply (Redirect To_profile_card)
                             [(''Profile saved.'', ''success'')]
                             (s2\<lparr>profiles :=
                                   map (\<lambda>p.
                                       if user_id p = uid
                                       then p\<lparr>photo_filename :=
                                                (case photo_filename' of
                                                   None \<Rightarrow> photo_filename p
                                                 | Some name \<Rightarrow> Some name),
                                              title := Some title',
                                              full_name := Some full_name',
                                              highest_qualification :=
                                                Some highest_qualification',
                                              country := Some country',
                                              university := Some university',
                                              school_faculty := Some school_faculty',
                                              position := Some position',
                                              supervisor_name := Some supervisor_name'',
                                              bio := Some bio',
                                              skills := Some skills',
                                              device_access := Some device_access',
                                              updated_at := Some now\<rparr>
                                       else p)
                                     (profiles s2)\<rparr>))))
          else reply (Render (Profile_edit_page (fetch_profile s1 uid))) [] s1)"

definition secure_filename_ascii :: "string \<Rightarrow> string" where
  \<comment> \<open>What \<open>werkzeug.utils.secure_filename\<close> returns under POSIX for a name of code
      points below 128, on which its Unicode normalization changes nothing: \<open>/\<close>
      becomes a space, runs of whitespace become one \<open>_\<close>, only letters, digits, \<open>_\<close>,
      \<open>.\<close> and \<open>-\<close> are kept, and dots and underscores are stripped at both ends. (Other
      code points are dropped here.) Used for the concrete examples only.\<close>
  "secure_filename_ascii filename =
     (let ascii = filter (\<lambda>c. (of_char c :: nat) < 128) filename;
          spaced = map (\<lambda>c. if c = CHR ''/'' then CHR '' '' else c) ascii;
          joined = map (\<lambda>c. if c = CHR '' '' then CHR ''_'' else c)
                     (py_strip (sub_spaces spaced));
          kept = filter (\<lambda>c. let n = (of_char c :: nat)
                              in (48 \<le> n \<and> n \<le> 57) \<or> (65 \<le> n \<and> n \<le> 90) \<or>
                                 (97 \<le> n \<and> n \<le> 122) \<or> c = CHR ''_'' \<or> c = CHR ''.'' \<or>
                                 c = CHR ''-'') joined;
          dot_or_underscore = (\<lambda>c. c = CHR ''.'' \<or> c = CHR ''_'')
      in rev (dropWhile dot_or_underscore (rev (dropWhile dot_or_underscore kept))))"


section \<open>The states the program can be in\<close>

text \<open>
  A state is reachable when the program, started with no database file, gets to it by
  handling requests. The handlers are taken with every argument, so also with a
  session user that has no row.
\<close>

inductive reachable :: "state \<Rightarrow> bool" where
  start: "reachable (empty_database (main reset None))"
| register: "reachable s \<Longrightarrow> reachable (state_after (register post form pw_hash now s))"
| profile_edit:
    "reachable s \<Longrightarrow>
     reachable (state_after (profile_edit secure_filename now now_ts post form photo uid s))"
| search: "reachable s \<Longrightarrow> reachable (state_after (search args uid s))"
| send_message: "reachable s \<Longrightarrow> reachable (state_after (send_message target form now uid s))"
| thread: "reachable s \<Longrightarrow> reachable (state_after (thread other uid s))"

definition users_have_profiles :: "state \<Rightarrow> bool" where
  "users_have_profiles s = list_all (\<lambda>u. fetch_profile s (u_id u) \<noteq> None) (users s)"

definition no_self_messages :: "state \<Rightarrow> bool" where
  "no_self_messages s = list_all (\<lambda>m. m_sender_id m \<noteq> m_receiver_id m) (messages s)"

definition messages_layout :: "state \<Rightarrow> bool" where
  \<comment> \<open>the \<open>messages\<close> table is the one of \<open>init_db\<close>, or the one of \<open>ensure_schema\<close>
      and then without a row\<close>
  "messages_layout s =
     (messages_columns s =
        [''id'', ''sender_id'', ''receiver_id'', ''body'', ''created_at'', ''is_read''] \<or>
      messages_columns s =
        [''id'', ''sender_id'', ''recipient_id'', ''body'', ''created_at'', ''read_at''] \<and>
      messages s = [])"


section \<open>Notions for the profile editor\<close>

definition submitted :: "(string \<rightharpoonup> string) \<Rightarrow> string \<Rightarrow> string" where
  \<comment> \<open>a form field as the handler reads it: \<open>normalize_text(request.form.get(k, ""))\<close>\<close>
  "submitted form k = normalize_text (Some (get_or_empty form k))"

definition required_filled :: "(string \<rightharpoonup> string) \<Rightarrow> bool" where
  \<comment> \<open>the form passes the validation of the required fields\<close>
  "required_filled form =
     list_all (\<lambda>k. submitted form k \<noteq> [])
       [''full_name'', ''highest_qualification'', ''country'', ''university'', ''position'',
        ''bio'', ''skills'']"

definition no_new_photo :: "(string \<Rightarrow> string) \<Rightarrow> string option \<Rightarrow> bool" where
  \<comment> \<open>no file part, a file part with an empty name, or a name that the sanitizer
      empties\<close>
  "no_new_photo secure_filename photo =
     (case photo of
        None \<Rightarrow> True
      | Some client_name \<Rightarrow> client_name = [] \<or> secure_filename client_name = [])"

definition stored_photo :: "state \<Rightarrow> int \<Rightarrow> string option" where
  \<comment> \<open>the \<open>photo_filename\<close> of the user's row; a user without a row has none\<close>
  "stored_photo s uid =
     (case fetch_profile s uid of None \<Rightarrow> None | Some p \<Rightarrow> photo_filename p)"

definition generated_name :: "int \<Rightarrow> int \<Rightarrow> string \<Rightarrow> string" where
  \<comment> \<open>the name \<open>save_photo\<close> builds: \<open>user_{id}_{seconds}{ext}\<close>\<close>
  "generated_name uid now_ts filename =
     ''user_'' @ str_int uid @ ''_'' @ str_int now_ts @ py_lower (path_suffix filename)"

text \<open>
  The row a saved edit leaves: every text column holds the submitted value, the
  supervisor is kept only for a position with \<open>student\<close> in it, and the photo name
  changes only for a new photo.
\<close>

definition edited :: "(string \<Rightarrow> string) \<Rightarrow> string \<Rightarrow> int \<Rightarrow> (string \<rightharpoonup> string) \<Rightarrow> string option
    \<Rightarrow> int \<Rightarrow> profile \<Rightarrow> profile" where
  "edited sf now ts form photo uid p =
     p\<lparr>photo_filename :=
         (if no_new_photo sf photo then photo_filename p
          else Some (generated_name uid ts (sf (the photo)))),
       title := Some (submitted form ''title''),
       full_name := Some (submitted form ''full_name''),
       highest_qualification := Some (submitted form ''highest_qualification''),
       country := Some (submitted form ''country''),
       university := Some (submitted form ''university''),
       school_faculty := Some (submitted form ''school_faculty''),
       position := Some (submitted form ''position''),
       supervisor_name :=
         Some (if sublist ''student'' (py_lower (submitted form ''position''))
               then submitted form ''supervisor_name'' else []),
       bio := Some (submitted form ''bio''),
       skills := Some (submitted form ''skills''),
       device_access := Some (submitted form ''device_access''),
       updated_at := Some now\<rparr>"


section \<open>Sample requests and states\<close>

definition fresh_start :: state where
  \<comment> \<open>no database file, the program started without \<open>--reset-db\<close>\<close>
  "fresh_start = empty_database (main False None)"

definition after_reset :: state where
  \<comment> \<open>the program started with \<open>--reset-db\<close>\<close>
  "after_reset = empty_database (main True None)"

definition ann_form :: "string \<rightharpoonup> string" where
  "ann_form = [''email'' \<mapsto> '' Ann@Example.org '', ''password'' \<mapsto> ''pw1'']"

definition bob_form :: "string \<rightharpoonup> string" where
  "bob_form = [''email'' \<mapsto> ''bob@example.org'', ''password'' \<mapsto> ''pw2'']"

definition register_ann_bob :: "state \<Rightarrow> state" where
  \<comment> \<open>Ann registers, then Bob\<close>
  "register_ann_bob s =
     state_after (register True bob_form ''hash2'' ''2024-05-01T10:00:01''
       (state_after (register True ann_form ''hash1'' ''2024-05-01T10:00:00'' s)))"

definition hello_form :: "string \<rightharpoonup> string" where
  "hello_form = [''body'' \<mapsto> ''  hello   there '']"

definition edit_form :: "string \<rightharpoonup> string" where
  "edit_form =
     [''full_name'' \<mapsto> ''Ann  Lee'', ''highest_qualification'' \<mapsto> ''PhD'',
      ''country'' \<mapsto> ''Australia'', ''university'' \<mapsto> ''Monash University'',
      ''position'' \<mapsto> ''Research Assistant'', ''bio'' \<mapsto> ''Optics.'',
      ''skills'' \<mapsto> ''lasers'', ''supervisor_name'' \<mapsto> ''Dr Who'']"

definition one_message :: state where
  \<comment> \<open>after \<open>--reset-db\<close>: Ann (user 1) and Bob (user 2) register, Bob writes to Ann\<close>
  "one_message =
     state_after (send_message 1 hello_form ''2024-05-01T10:05:00'' 2
       (register_ann_bob after_reset))"

definition two_users :: state where
  \<comment> \<open>after \<open>--reset-db\<close>: Ann (user 1) and Bob (user 2) have registered\<close>
  "two_users = register_ann_bob after_reset"


section \<open>Whitespace normalization\<close>

lemma sub_spaces_eq_Nil [simp]: "sub_spaces s = [] \<longleftrightarrow> s = []"
  by (cases s) simp_all

lemma sub_spaces_all_space:
  "s \<noteq> [] \<Longrightarrow> \<forall>c\<in>set s. py_isspace c \<Longrightarrow> sub_spaces s = '' ''"
proof (cases s)
  case Nil
  assume "s \<noteq> []"
  with Nil show ?thesis by simp
next
  case (Cons c cs)
  assume "\<forall>c\<in>set s. py_isspace c"
  with Cons have "py_isspace c" and "dropWhile py_isspace cs = []"
    by simp_all
  with Cons show ?thesis by simp
qed

lemma sub_spaces_keeps_nonspace:
  "\<exists>c\<in>set s. \<not> py_isspace c \<Longrightarrow> \<exists>c\<in>set (sub_spaces s). \<not> py_isspace c"
proof (induction s rule: sub_spaces.induct)
  case 1
  then show ?case by simp
next
  case (2 c cs)
  show ?case
  proof (cases "py_isspace c")
    case True
    with "2.prems" obtain d where d: "d \<in> set cs" "\<not> py_isspace d"
      by auto
    have "set (dropWhile py_isspace cs) \<supseteq> {x \<in> set cs. \<not> py_isspace x}"
      by (induction cs) auto
    with d have "\<exists>c\<in>set (dropWhile py_isspace cs). \<not> py_isspace c"
      by blast
    with "2.IH"(1) True show ?thesis by simp
  next
    case False
    then show ?thesis by simp
  qed
qed

lemma py_strip_eq_Nil: "py_strip s = [] \<longleftrightarrow> (\<forall>c\<in>set s. py_isspace c)"
proof
  assume "py_strip s = []"
  then have "\<forall>x\<in>set (dropWhile py_isspace s). py_isspace x"
    by (simp add: py_strip_def)
  then have "dropWhile py_isspace s = []"
    by (metis hd_dropWhile hd_in_set)
  then show "\<forall>c\<in>set s. py_isspace c"
    by simp
next
  assume "\<forall>c\<in>set s. py_isspace c"
  then have "dropWhile py_isspace s = []"
    by simp
  then show "py_strip s = []"
    unfolding py_strip_def by (simp del: dropWhile_eq_Nil_conv)
qed

lemma py_isspace_space [simp]: "py_isspace CHR '' ''"
  by (simp add: py_isspace_def)

lemma normalize_text_nonempty:
  "normalize_text v \<noteq> [] \<longleftrightarrow> (\<exists>s. v = Some s \<and> (\<exists>c\<in>set s. \<not> py_isspace c))"
proof (cases v)
  case None
  then show ?thesis by (simp add: normalize_text_def)
next
  case (Some s)
  show ?thesis
  proof (cases "\<exists>c\<in>set s. \<not> py_isspace c")
    case True
    then have "s \<noteq> []" by auto
    moreover from True have "py_strip (sub_spaces s) \<noteq> []"
      using sub_spaces_keeps_nonspace [of s] by (simp add: py_strip_eq_Nil)
    ultimately show ?thesis using Some True by (simp add: normalize_text_def)
  next
    case False
    then have all: "\<forall>c\<in>set s. py_isspace c" by simp
    have "normalize_text (Some s) = []"
    proof (cases "s = []")
      case True
      then show ?thesis by (simp add: normalize_text_def)
    next
      case False
      from False all have "sub_spaces s = '' ''" by (rule sub_spaces_all_space)
      then show ?thesis by (simp add: normalize_text_def py_strip_def)
    qed
    with Some False show ?thesis by simp
  qed
qed

section \<open>Profile completeness\<close>

lemma profile_is_complete_fields:
  "profile_is_complete (Some p) \<longleftrightarrow>
     normalize_text (full_name p) \<noteq> [] \<and>
     normalize_text (highest_qualification p) \<noteq> [] \<and>
     normalize_text (country p) \<noteq> [] \<and>
     normalize_text (university p) \<noteq> [] \<and>
     normalize_text (position p) \<noteq> [] \<and>
     normalize_text (bio p) \<noteq> [] \<and>
     normalize_text (skills p) \<noteq> []"
  by (simp add: profile_is_complete_def required_def row_to_dict_def dict_get_def)

text \<open>
  C1. A profile row is complete exactly when each of the seven fields \<open>full_name\<close>,
  \<open>highest_qualification\<close>, \<open>country\<close>, \<open>university\<close>, \<open>position\<close>, \<open>bio\<close> and
  \<open>skills\<close> is non-empty after whitespace normalization, that is, holds a text with at
  least one character that is not whitespace; whatever is stored in \<open>device_access\<close>,
  \<open>title\<close>, \<open>school_faculty\<close>, \<open>supervisor_name\<close> and \<open>photo_filename\<close> does not
  change the result.
\<close>

theorem profile_is_complete_iff:
  "(profile_is_complete (Some p) \<longleftrightarrow>
      list_all (\<lambda>f. normalize_text (f p) \<noteq> [])
        [full_name, highest_qualification, country, university, position, bio, skills]) \<and>
   (profile_is_complete (Some p) \<longleftrightarrow>
      list_all (\<lambda>f. \<exists>s. f p = Some s \<and> \<not> list_all py_isspace s)
        [full_name, highest_qualification, country, university, position, bio, skills]) \<and>
   profile_is_complete
     (Some (p\<lparr>device_access := d, title := t, school_faculty := sf,
              supervisor_name := sn, photo_filename := ph\<rparr>)) =
   profile_is_complete (Some p)"
  by (simp add: profile_is_complete_fields normalize_text_nonempty list_all_iff)

section \<open>Search results\<close>

lemma like_percent_all: "like_match ''%'' s"
  by (induction s) simp_all

lemma like_percent_iff:
  "like_match (CHR ''%'' # r) s \<longleftrightarrow> (\<exists>a b. s = a @ b \<and> like_match r b)"
proof (induction s)
  case Nil
  then show ?case by (cases r) auto
next
  case (Cons c cs)
  note IH = Cons.IH
  show ?case
  proof
    assume "like_match (CHR ''%'' # r) (c # cs)"
    then consider "like_match r (c # cs)" | "like_match (CHR ''%'' # r) cs" by auto
    then show "\<exists>a b. c # cs = a @ b \<and> like_match r b"
    proof cases
      case 1
      then have "c # cs = [] @ (c # cs) \<and> like_match r (c # cs)" by simp
      then show ?thesis by blast
    next
      case 2
      with IH obtain a b where "cs = a @ b" "like_match r b" by blast
      then have "c # cs = (c # a) @ b \<and> like_match r b" by simp
      then show ?thesis by blast
    qed
  next
    assume "\<exists>a b. c # cs = a @ b \<and> like_match r b"
    then obtain a b where ab: "c # cs = a @ b" "like_match r b" by blast
    show "like_match (CHR ''%'' # r) (c # cs)"
    proof (cases a)
      case Nil
      with ab have "like_match r (c # cs)" by simp
      then show ?thesis by simp
    next
      case (Cons x xs)
      with ab have "cs = xs @ b" by simp
      with ab IH have "like_match (CHR ''%'' # r) cs" by blast
      then show ?thesis by simp
    qed
  qed
qed

lemma like_no_wildcards_iff:
  "no_wildcards q \<Longrightarrow>
   like_match (q @ r) s \<longleftrightarrow>
     (\<exists>a b. s = a @ b \<and> map sql_fold a = map sql_fold q \<and> like_match r b)"
proof (induction q arbitrary: s)
  case Nil
  then show ?case by simp
next
  case (Cons p ps)
  note IH = Cons.IH
  from Cons have p: "p \<noteq> CHR ''%''" "p \<noteq> CHR ''_''" and ps: "no_wildcards ps"
    by (auto simp: no_wildcards_def)
  show ?case
  proof (cases s)
    case Nil
    with p show ?thesis by simp
  next
    case (Cons c cs)
    have "like_match ((p # ps) @ r) (c # cs) \<longleftrightarrow>
          sql_fold p = sql_fold c \<and> like_match (ps @ r) cs"
      using p by simp
    also have "\<dots> \<longleftrightarrow> sql_fold p = sql_fold c \<and>
        (\<exists>a b. cs = a @ b \<and> map sql_fold a = map sql_fold ps \<and> like_match r b)"
      using IH [OF ps] by simp
    also have "\<dots> \<longleftrightarrow>
        (\<exists>a b. c # cs = a @ b \<and> map sql_fold a = map sql_fold (p # ps) \<and> like_match r b)"
      (is "?L \<longleftrightarrow> ?R")
    proof
      assume ?L
      then obtain a b where "sql_fold p = sql_fold c" "cs = a @ b"
        "map sql_fold a = map sql_fold ps" "like_match r b" by blast
      then have "c # cs = (c # a) @ b \<and> map sql_fold (c # a) = map sql_fold (p # ps) \<and>
          like_match r b" by simp
      then show ?R by blast
    next
      assume ?R
      then obtain a b where ab: "c # cs = a @ b" "map sql_fold a = map sql_fold (p # ps)"
        "like_match r b" by blast
      then obtain x xs where "a = x # xs" by (cases a) auto
      with ab show ?L by auto
    qed
    finally show ?thesis using Cons by simp
  qed
qed

lemma like_contains:
  assumes "no_wildcards q"
  shows "like_match (''%'' @ q @ ''%'') s \<longleftrightarrow> sublist (map sql_fold q) (map sql_fold s)"
proof -
  have "like_match (''%'' @ q @ ''%'') s \<longleftrightarrow>
        (\<exists>a b. s = a @ b \<and> like_match (q @ ''%'') b)"
    using like_percent_iff [of "q @ ''%''" s] by simp
  also have "\<dots> \<longleftrightarrow> (\<exists>a m c. s = a @ m @ c \<and> map sql_fold m = map sql_fold q)"
    using like_no_wildcards_iff [OF assms, of "''%''"] like_percent_all by auto
  also have "\<dots> \<longleftrightarrow> sublist (map sql_fold q) (map sql_fold s)"
  proof
    assume "\<exists>a m c. s = a @ m @ c \<and> map sql_fold m = map sql_fold q"
    then obtain a m c where "s = a @ m @ c" "map sql_fold m = map sql_fold q" by blast
    then have "map sql_fold s = map sql_fold a @ map sql_fold q @ map sql_fold c" by simp
    then show "sublist (map sql_fold q) (map sql_fold s)" unfolding sublist_def by blast
  next
    assume "sublist (map sql_fold q) (map sql_fold s)"
    then obtain x y where xy: "map sql_fold s = x @ map sql_fold q @ y"
      unfolding sublist_def by blast
    define a where "a = take (length x) s"
    define m where "m = take (length q) (drop (length x) s)"
    define c where "c = drop (length x + length q) s"
    have len: "length s = length x + length q + length y"
      using arg_cong [OF xy, of length] by simp
    have "s = a @ m @ c"
      unfolding a_def m_def c_def
      by (metis append_take_drop_id drop_drop add.commute)
    moreover have "map sql_fold m = map sql_fold q"
    proof -
      have "map sql_fold m = take (length q) (drop (length x) (map sql_fold s))"
        unfolding m_def by (simp add: take_map drop_map)
      also have "\<dots> = map sql_fold q" using xy by simp
      finally show ?thesis .
    qed
    ultimately show "\<exists>a m c. s = a @ m @ c \<and> map sql_fold m = map sql_fold q" by blast
  qed
  finally show ?thesis .
qed

lemma c_string_id: "CHR 0x00 \<notin> set s \<Longrightarrow> c_string s = s"
  by (auto simp: c_string_def takeWhile_eq_all_conv)

lemma sql_like_contains:
  assumes "plain_keyword q"
  shows "sql_like v (CHR ''%'' # q @ ''%'') = contains_nocase q v"
proof -
  from assms have nw: "no_wildcards q" and nul: "CHR 0x00 \<notin> set q"
    by (simp_all add: plain_keyword_def no_wildcards_def)
  from nul have "c_string (CHR ''%'' # q @ ''%'') = ''%'' @ q @ ''%''"
    using c_string_id [of "CHR ''%'' # q @ ''%''"] by simp
  with like_contains [OF nw] show ?thesis
    by (simp add: sql_like_def contains_nocase_def split: option.splits)
qed

lemma sorted_desc:
  "sorted_wrt (\<lambda>a b. a \<ge> b) (map updated_at (order_by_updated_at_desc rows))"
proof -
  have "sorted (map updated_at (sort_key updated_at (rev rows)))"
    by (rule sorted_sort_key)
  then have "sorted_wrt (\<lambda>a b. b \<le> a)
      (rev (map updated_at (sort_key updated_at (rev rows))))"
    by (simp add: sorted_wrt_rev)
  then show ?thesis
    by (simp add: order_by_updated_at_desc_def rev_map)
qed

lemma sorted_wrt_take: "sorted_wrt P xs \<Longrightarrow> sorted_wrt P (take n xs)"
  by (metis append_take_drop_id sorted_wrt_append)

lemma set_order_by [simp]: "set (order_by_updated_at_desc rows) = set rows"
  by (simp add: order_by_updated_at_desc_def)

lemma mset_order_by [simp]: "mset (order_by_updated_at_desc rows) = mset rows"
  by (simp add: order_by_updated_at_desc_def)

lemma search_query_results:
  assumes "search_query s uid q uni pos = Inr results"
  shows "\<exists>rows. results = take 200 (order_by_updated_at_desc rows) \<and>
                (\<forall>p\<in>set rows. user_id p \<noteq> uid)"
proof -
  define rows0 where "rows0 = filter (\<lambda>p. user_id p \<noteq> uid) (sort_key user_id (profiles s))"
  define rows1 where
    "rows1 = (if uni \<noteq> [] then filter (\<lambda>p. university p = Some uni) rows0 else rows0)"
  define rows2 where
    "rows2 = (if pos \<noteq> [] then filter (\<lambda>p. position p = Some pos) rows1 else rows1)"
  have own: "\<forall>p\<in>set rows2. user_id p \<noteq> uid"
    by (simp add: rows2_def rows1_def rows0_def)
  from assms have
    "(\<exists>P. results = take 200 (order_by_updated_at_desc (filter P rows2))) \<or>
     results = take 200 (order_by_updated_at_desc rows2)"
    unfolding search_query_def Let_def rows2_def rows1_def rows0_def
    by (auto split: if_splits)
  then show ?thesis
  proof
    assume "\<exists>P. results = take 200 (order_by_updated_at_desc (filter P rows2))"
    then obtain P where "results = take 200 (order_by_updated_at_desc (filter P rows2))"
      by blast
    moreover from own have "\<forall>p\<in>set (filter P rows2). user_id p \<noteq> uid"
      by simp
    ultimately show ?thesis by blast
  next
    assume "results = take 200 (order_by_updated_at_desc rows2)"
    with own show ?thesis by blast
  qed
qed

lemma search_query_error:
  assumes "search_query s uid q uni pos = Inl e"
  shows "e = OperationalError \<and> LIKE_PATTERN_LENGTH < utf8_length (''%'' @ q @ ''%'')"
  using assms by (auto simp: search_query_def Let_def split: if_splits)

lemma search_query_plain:
  assumes "q \<noteq> []" and "plain_keyword q"
    and "utf8_length (''%'' @ q @ ''%'') \<le> LIKE_PATTERN_LENGTH"
  shows "search_query s uid q uni pos =
           Inr (take 200 (order_by_updated_at_desc
             (filter (selected uid q uni pos) (sort_key user_id (profiles s)))))"
proof -
  have "filter (\<lambda>p. sql_like (full_name p) (CHR ''%'' # q @ ''%'') \<or>
                     sql_like (title p) (CHR ''%'' # q @ ''%'') \<or>
                     sql_like (bio p) (CHR ''%'' # q @ ''%'') \<or>
                     sql_like (skills p) (CHR ''%'' # q @ ''%'') \<or>
                     sql_like (device_access p) (CHR ''%'' # q @ ''%'') \<or>
                     sql_like (school_faculty p) (CHR ''%'' # q @ ''%'') \<or>
                     sql_like (supervisor_name p) (CHR ''%'' # q @ ''%'')) rows =
        filter (keyword_occurs q) rows" for rows
    by (rule filter_cong)
      (auto simp: sql_like_contains [OF assms(2)] keyword_occurs_def keyword_fields_def)
  with assms(1,3) show ?thesis
    by (auto simp: search_query_def Let_def selected_def intro!: arg_cong [where f = "take 200"]
        arg_cong [where f = order_by_updated_at_desc] filter_cong)
qed


text \<open>
  C3. For every database state and every authenticated user (a session user id, which is
  never 0) who submits a search with \<open>do=1\<close>: the request renders a result list, and
  this list holds no profile of that user, has at most 200 rows, and is ordered by the
  stored \<open>updated_at\<close> text, largest first; the one exception is a request that SQLite
  refuses, with an uncaught \<open>OperationalError\<close> and no list at all, which takes a
  keyword so long that the pattern passes SQLite's limit of 50000 bytes. The texts
  are ISO timestamps of one fixed layout, for which the larger text is the more recent
  instant.
\<close>

theorem search_results:
  assumes "uid \<noteq> 0" and "args ''do'' = Some ''1''"
  shows "(\<exists>results.
            response (search_route args (Some uid) s) = Render (Search_page True results) \<and>
            (\<forall>p\<in>set results. user_id p \<noteq> uid) \<and>
            length results \<le> 200 \<and>
            sorted_wrt (\<lambda>a b. a \<ge> b) (map updated_at results)) \<or>
         (response (search_route args (Some uid) s) = Uncaught OperationalError \<and>
          LIKE_PATTERN_LENGTH <
            utf8_length (''%'' @ normalize_text (Some (get_or_empty args ''q'')) @ ''%''))"
proof -
  let ?q = "normalize_text (Some (get_or_empty args ''q''))"
  let ?uni = "normalize_text (Some (get_or_empty args ''university''))"
  let ?pos = "normalize_text (Some (get_or_empty args ''position''))"
  have route: "search_route args (Some uid) s = search args uid s"
    using assms(1) by (simp add: search_route_def login_required_def)
  show ?thesis
  proof (cases "search_query s uid ?q ?uni ?pos")
    case (Inl e)
    from search_query_error [OF Inl] Inl assms(2) route show ?thesis
      by (simp add: search_def reply_def Let_def)
  next
    case (Inr results)
    from search_query_results [OF Inr] obtain rows where
      r: "results = take 200 (order_by_updated_at_desc rows)"
      and own: "\<forall>p\<in>set rows. user_id p \<noteq> uid"
      by blast
    have "response (search_route args (Some uid) s) = Render (Search_page True results)"
      using Inr assms(2) route by (simp add: search_def reply_def Let_def)
    moreover have "set results \<subseteq> set rows"
      using r by (auto dest: in_set_takeD)
    with own have "\<forall>p\<in>set results. user_id p \<noteq> uid"
      by blast
    moreover have "length results \<le> 200"
      using r by simp
    moreover have "sorted_wrt (\<lambda>a b. a \<ge> b) (map updated_at results)"
      using sorted_wrt_take [OF sorted_desc] r by (simp add: take_map [symmetric])
    ultimately show ?thesis by blast
  qed
qed

theorem search_results_witness:
  "(1::int) \<noteq> 0 \<and> [''do'' \<mapsto> ''1'', ''q'' \<mapsto> '' b ''] ''do'' = Some ''1'' \<and>
   (\<exists>results.
      response (search_route [''do'' \<mapsto> ''1'', ''q'' \<mapsto> '' b ''] (Some 1) example_state) =
        Render (Search_page True results) \<and>
      results = [example_profile 3 ''Bo'' ''2024-01-03T00:00:00'',
                 example_profile 2 ''Bob'' ''2024-01-02T00:00:00''] \<and>
      (\<forall>p\<in>set results. user_id p \<noteq> 1) \<and>
      length results \<le> 200 \<and>
      sorted_wrt (\<lambda>a b. a \<ge> b) (map updated_at results))"
proof -
  have h1: "(1::int) \<noteq> 0" by simp
  have h2: "[''do'' \<mapsto> ''1'', ''q'' \<mapsto> '' b ''] ''do'' = Some ''1''" by simp
  have ev: "response (search_route [''do'' \<mapsto> ''1'', ''q'' \<mapsto> '' b ''] (Some 1) example_state) =
      Render (Search_page True [example_profile 3 ''Bo'' ''2024-01-03T00:00:00'',
                                example_profile 2 ''Bob'' ''2024-01-02T00:00:00''])"
    by code_simp
  from search_results [where uid = 1 and s = example_state
      and args = "[''do'' \<mapsto> ''1'', ''q'' \<mapsto> '' b '']", OF h1 h2] ev show ?thesis
    using h2 by auto
qed


lemma sub_spaces_no_space: "\<forall>c\<in>set s. \<not> py_isspace c \<Longrightarrow> sub_spaces s = s"
  by (induction s rule: sub_spaces.induct) simp_all

lemma normalize_text_no_space:
  assumes "\<forall>c\<in>set s. \<not> py_isspace c"
  shows "normalize_text (Some s) = s"
proof (cases s)
  case Nil
  then show ?thesis by (simp add: normalize_text_def)
next
  case (Cons c cs)
  then have "hd s \<in> set s" and "hd (rev s) \<in> set s"
    by (simp, metis hd_in_set rev_is_Nil_conv set_rev list.distinct(1))
  with assms have "\<not> py_isspace (hd s)" and "\<not> py_isspace (hd (rev s))"
    by blast+
  then have "py_strip s = s"
    using Cons by (simp add: py_strip_def dropWhile_eq_self_iff)
  with assms Cons show ?thesis
    by (simp add: normalize_text_def sub_spaces_no_space)
qed

lemma utf8_length_append [simp]: "utf8_length (a @ b) = utf8_length a + utf8_length b"
  by (simp add: utf8_length_def)

lemma utf8_length_replicate_a: "utf8_length (replicate n CHR ''a'') = n"
  by (induction n) (simp_all add: utf8_length_def)

lemma long_keyword_facts:
  "long_keyword \<noteq> []"
  "normalize_text (Some long_keyword) = long_keyword"
  "utf8_length long_keyword = 49999"
proof -
  show "long_keyword \<noteq> []"
    unfolding long_keyword_def by (simp only: replicate_empty)
  have "\<forall>c\<in>set long_keyword. \<not> py_isspace c"
    unfolding long_keyword_def by (simp only: set_replicate_conv_if) (simp add: py_isspace_def)
  then show "normalize_text (Some long_keyword) = long_keyword"
    by (rule normalize_text_no_space)
  show "utf8_length long_keyword = 49999"
    unfolding long_keyword_def by (rule utf8_length_replicate_a)
qed

lemma search_long_keyword:
  "response (search [''do'' \<mapsto> ''1'', ''q'' \<mapsto> long_keyword] 1 long_state) =
     Uncaught OperationalError"
proof -
  let ?args = "[''do'' \<mapsto> ''1'', ''q'' \<mapsto> long_keyword]"
  have q: "normalize_text (Some (get_or_empty ?args ''q'')) = long_keyword"
    by (simp add: get_or_empty_def long_keyword_facts)
  have e: "normalize_text (Some (get_or_empty ?args ''university'')) = []"
    "normalize_text (Some (get_or_empty ?args ''position'')) = []"
    by (simp_all add: get_or_empty_def normalize_text_def)
  have len: "utf8_length (''%'' @ long_keyword @ ''%'') = 50001"
    using long_keyword_facts(3) by (simp add: utf8_length_def)
  have rows: "filter (\<lambda>p. user_id p \<noteq> 1) (sort_key user_id (profiles long_state)) \<noteq> []"
    by (simp add: long_state_def example_profile_def)
  have "search_query long_state 1 long_keyword [] [] = Inl OperationalError"
    using rows len long_keyword_facts(1)
    by (simp add: search_query_def Let_def LIKE_PATTERN_LENGTH_def)
  with q e show ?thesis
    by (simp add: search_def reply_def Let_def)
qed

lemma long_keyword_occurs:
  "keyword_occurs_as_stated long_keyword
     ((example_profile 2 ''Bob'' ''2024-01-02T00:00:00'')\<lparr>bio := Some long_keyword\<rparr>)"
  by (simp add: keyword_occurs_as_stated_def keyword_fields_def)

text \<open>
  C5, as stated, fails in four ways. The keyword is put between two \<open>%\<close> and given to
  \<open>LIKE\<close> as it is. (1) A \<open>_\<close> in it stands for any character: the keyword \<open>_\<close>
  returns the profiles of Bo and Bob, in whose columns no \<open>_\<close> occurs. (2) \<open>LIKE\<close>
  ignores case for the letters A-Z only: the lower-case e with an acute accent does not
  find the name that is its capital. (3) \<open>LIKE\<close> reads the keyword up to its first NUL:
  the keyword NUL returns Bo and Bob, in whose columns no NUL occurs. (4) A keyword of
  49999 letters makes a pattern beyond SQLite's limit: the request ends in an uncaught
  \<open>OperationalError\<close> and returns no profile, though the keyword is the biography of
  user 2.
\<close>

theorem search_keyword_counterexample:
  "response (search [''do'' \<mapsto> ''1'', ''q'' \<mapsto> ''_''] 1 example_state) =
     Render (Search_page True [example_profile 3 ''Bo'' ''2024-01-03T00:00:00'',
                               example_profile 2 ''Bob'' ''2024-01-02T00:00:00'']) \<and>
   \<not> keyword_occurs_as_stated ''_'' (example_profile 3 ''Bo'' ''2024-01-03T00:00:00'') \<and>
   \<not> keyword_occurs_as_stated ''_'' (example_profile 2 ''Bob'' ''2024-01-02T00:00:00'') \<and>
   response (search [''do'' \<mapsto> ''1'', ''q'' \<mapsto> [CHR 0xE9]] 1 accent_state) =
     Render (Search_page True []) \<and>
   keyword_occurs_as_stated [CHR 0xE9] (example_profile 2 [CHR 0xC9] ''2024-01-02T00:00:00'') \<and>
   response (search [''do'' \<mapsto> ''1'', ''q'' \<mapsto> [CHR 0x00]] 1 example_state) =
     Render (Search_page True [example_profile 3 ''Bo'' ''2024-01-03T00:00:00'',
                               example_profile 2 ''Bob'' ''2024-01-02T00:00:00'']) \<and>
   \<not> keyword_occurs_as_stated [CHR 0x00] (example_profile 3 ''Bo'' ''2024-01-03T00:00:00'') \<and>
   \<not> keyword_occurs_as_stated [CHR 0x00] (example_profile 2 ''Bob'' ''2024-01-02T00:00:00'') \<and>
   response (search [''do'' \<mapsto> ''1'', ''q'' \<mapsto> long_keyword] 1 long_state) =
     Uncaught OperationalError \<and>
   keyword_occurs_as_stated long_keyword
     ((example_profile 2 ''Bob'' ''2024-01-02T00:00:00'')\<lparr>bio := Some long_keyword\<rparr>)"
proof -
  have "response (search [''do'' \<mapsto> ''1'', ''q'' \<mapsto> ''_''] 1 example_state) =
     Render (Search_page True [example_profile 3 ''Bo'' ''2024-01-03T00:00:00'',
                               example_profile 2 ''Bob'' ''2024-01-02T00:00:00'']) \<and>
   \<not> keyword_occurs_as_stated ''_'' (example_profile 3 ''Bo'' ''2024-01-03T00:00:00'') \<and>
   \<not> keyword_occurs_as_stated ''_'' (example_profile 2 ''Bob'' ''2024-01-02T00:00:00'') \<and>
   response (search [''do'' \<mapsto> ''1'', ''q'' \<mapsto> [CHR 0xE9]] 1 accent_state) =
     Render (Search_page True []) \<and>
   keyword_occurs_as_stated [CHR 0xE9] (example_profile 2 [CHR 0xC9] ''2024-01-02T00:00:00'') \<and>
   response (search [''do'' \<mapsto> ''1'', ''q'' \<mapsto> [CHR 0x00]] 1 example_state) =
     Render (Search_page True [example_profile 3 ''Bo'' ''2024-01-03T00:00:00'',
                               example_profile 2 ''Bob'' ''2024-01-02T00:00:00'']) \<and>
   \<not> keyword_occurs_as_stated [CHR 0x00] (example_profile 3 ''Bo'' ''2024-01-03T00:00:00'') \<and>
   \<not> keyword_occurs_as_stated [CHR 0x00] (example_profile 2 ''Bob'' ''2024-01-02T00:00:00'')"
    by code_simp
  with search_long_keyword long_keyword_occurs show ?thesis
    by (simp only: simp_thms)
qed

text \<open>
  C5, amended. For every search with \<open>do=1\<close> and a non-empty keyword in which none of
  \<open>%\<close>, \<open>_\<close> and NUL occurs and which, between two \<open>%\<close>, is at most 50000 bytes long
  in UTF-8: the result list is the first 200 rows of the profiles selected, ordered as
  in C3. A profile is selected exactly when it is not the searcher's own, the keyword
  occurs in at least one of \<open>full_name\<close>, \<open>title\<close>, \<open>bio\<close>, \<open>skills\<close>,
  \<open>device_access\<close>, \<open>school_faculty\<close>, \<open>supervisor_name\<close> as a substring of the text
  up to its first NUL, upper and lower case of A-Z taken as equal, its university equals
  the university filter when that is non-empty, and its position equals the position
  filter when that is non-empty. Keyword and filters are the normalized query
  parameters.
\<close>

theorem search_keyword:
  assumes "args ''do'' = Some ''1''"
    and "q = normalize_text (Some (get_or_empty args ''q''))"
    and "uni = normalize_text (Some (get_or_empty args ''university''))"
    and "pos = normalize_text (Some (get_or_empty args ''position''))"
    and "q \<noteq> []" and "plain_keyword q"
    and "utf8_length (''%'' @ q @ ''%'') \<le> LIKE_PATTERN_LENGTH"
  shows "\<exists>rows. response (search args uid s) = Render (Search_page True (take 200 rows)) \<and>
                mset rows = mset (filter (selected uid q uni pos) (profiles s)) \<and>
                sorted_wrt (\<lambda>a b. a \<ge> b) (map updated_at rows)"
proof -
  let ?rows = "order_by_updated_at_desc
      (filter (selected uid q uni pos) (sort_key user_id (profiles s)))"
  from search_query_plain [OF assms(5-7)] assms(1-4)
  have "response (search args uid s) = Render (Search_page True (take 200 ?rows))"
    by (simp add: search_def reply_def Let_def)
  moreover have "mset ?rows = mset (filter (selected uid q uni pos) (profiles s))"
    by simp
  moreover have "sorted_wrt (\<lambda>a b. a \<ge> b) (map updated_at ?rows)"
    by (rule sorted_desc)
  ultimately show ?thesis by blast
qed

theorem search_keyword_witness:
  "plain_keyword ''b'' \<and> utf8_length ''%b%'' \<le> LIKE_PATTERN_LENGTH \<and>
   (\<exists>rows.
      response (search [''do'' \<mapsto> ''1'', ''q'' \<mapsto> '' b '', ''university'' \<mapsto> []] 1
          example_state) = Render (Search_page True (take 200 rows)) \<and>
      mset rows = mset (filter (selected 1 ''b'' [] []) (profiles example_state)) \<and>
      sorted_wrt (\<lambda>a b. a \<ge> b) (map updated_at rows)) \<and>
   filter (selected 1 ''b'' [] []) (profiles example_state) =
     [example_profile 2 ''Bob'' ''2024-01-02T00:00:00'',
      example_profile 3 ''Bo'' ''2024-01-03T00:00:00'']"
proof -
  let ?args = "[''do'' \<mapsto> ''1'', ''q'' \<mapsto> '' b '', ''university'' \<mapsto> []]"
  have h1: "?args ''do'' = Some ''1''" by simp
  have h2: "''b'' = normalize_text (Some (get_or_empty ?args ''q''))" by code_simp
  have h3: "[] = normalize_text (Some (get_or_empty ?args ''university''))" by code_simp
  have h4: "[] = normalize_text (Some (get_or_empty ?args ''position''))" by code_simp
  have h5: "''b'' \<noteq> []" by simp
  have h6: "plain_keyword ''b''" by code_simp
  have h7: "utf8_length (''%'' @ ''b'' @ ''%'') \<le> LIKE_PATTERN_LENGTH" by code_simp
  have k: "filter (selected 1 ''b'' [] []) (profiles example_state) =
      [example_profile 2 ''Bob'' ''2024-01-02T00:00:00'',
       example_profile 3 ''Bo'' ''2024-01-03T00:00:00'']"
    by code_simp
  from search_keyword [where uid = 1 and s = example_state and args = ?args
      and q = "''b''" and uni = "[]" and pos = "[]", OF h1 h2 h3 h4 h5 h6 h7] h6 h7 k
  show ?thesis by simp
qed

text \<open>
  C10. When the query parameter \<open>do\<close> is absent or is not \<open>1\<close>, the handler \<open>search\<close>
  does not open the database, leaves the state as it is and renders the empty result
  list, whatever the other parameters are. For a request without a session the
  decorator answers before the handler runs, so on the route as a whole, too, the
  database is not opened and a rendered result list is empty.
\<close>


theorem search_without_do:
  assumes "args ''do'' \<noteq> Some ''1''"
  shows "search args uid s =
           \<lparr>response = Render (Search_page False []), flashed = [], state_after = s,
            opened_db = False, session_user = None\<rparr> \<and>
         \<not> opened_db (search_route args session s) \<and>
         state_after (search_route args session s) = s \<and>
         (\<forall>d rs. response (search_route args session s) = Render (Search_page d rs) \<longrightarrow>
                 rs = [])"
  using assms
  by (auto simp: search_route_def login_required_def search_def reply_def Let_def
      split: option.splits)


theorem search_without_do_witness:
  "[''q'' \<mapsto> ''bo'', ''do'' \<mapsto> ''yes''] ''do'' \<noteq> Some ''1'' \<and>
   search [''q'' \<mapsto> ''bo'', ''do'' \<mapsto> ''yes''] 1 example_state =
     \<lparr>response = Render (Search_page False []), flashed = [], state_after = example_state,
      opened_db = False, session_user = None\<rparr> \<and>
   \<not> opened_db (search_route [''q'' \<mapsto> ''bo'', ''do'' \<mapsto> ''yes''] (Some 1) example_state) \<and>
   state_after (search_route [''q'' \<mapsto> ''bo'', ''do'' \<mapsto> ''yes''] (Some 1) example_state) =
     example_state"
proof -
  have h: "[''q'' \<mapsto> ''bo'', ''do'' \<mapsto> ''yes''] ''do'' \<noteq> Some ''1''" by simp
  from search_without_do [where uid = 1 and s = example_state and session = "Some 1"
      and args = "[''q'' \<mapsto> ''bo'', ''do'' \<mapsto> ''yes'']", OF h] h show ?thesis
    by simp
qed

section \<open>Registering the same email twice\<close>

lemma find_None_list_ex: "find P xs = None \<longleftrightarrow> \<not> list_ex P xs"
  by (auto simp: find_None_iff list_ex_iff)

lemma find_Some_list_ex: "find P xs = Some x \<Longrightarrow> list_ex P xs"
  by (auto simp: find_Some_iff list_ex_iff)

lemma register_existing:
  assumes "py_lower (normalize_text (Some (get_or_empty form ''email''))) = e"
    and "list_ex (\<lambda>u. u_email u = e) (users s)"
  shows "state_after (register True form h now s) = s"
    and "response (register True form h now s) =
           (if e = [] \<or> get_or_empty form ''password'' = []
            then Redirect To_register else Redirect To_login)"
proof -
  from assms(2) obtain x where "find (\<lambda>u. u_email u = e) (users s) = Some x"
    by (cases "find (\<lambda>u. u_email u = e) (users s)") (auto simp: find_None_list_ex)
  with assms(1) show "state_after (register True form h now s) = s"
    and "response (register True form h now s) =
           (if e = [] \<or> get_or_empty form ''password'' = []
            then Redirect To_register else Redirect To_login)"
    by (auto simp: register_def reply_def Let_def)
qed

lemma register_success:
  assumes "py_lower (normalize_text (Some (get_or_empty form ''email''))) = e"
    and "response (register True form h now s) = Redirect To_profile_edit"
  shows "\<not> list_ex (\<lambda>u. u_email u = e) (users s) \<and>
         users (state_after (register True form h now s)) =
           users s @ [\<lparr>u_id = next_id (map u_id (users s)) (users_seq s), u_email = e,
                       u_password_hash = h, u_created_at = now\<rparr>] \<and>
         profiles (state_after (register True form h now s)) =
           profiles s @ [new_profile (next_id (map u_id (users s)) (users_seq s)) now] \<and>
         messages (state_after (register True form h now s)) = messages s"
  using assms
  by (auto simp: register_def reply_def Let_def find_None_list_ex
      split: if_splits option.splits)

lemma register_succeeds:
  assumes "py_lower (normalize_text (Some (get_or_empty form ''email''))) = e"
    and "e \<noteq> []" and "get_or_empty form ''password'' \<noteq> []"
    and "\<not> list_ex (\<lambda>u. u_email u = e) (users s)"
    and "\<not> list_ex (\<lambda>p. user_id p = next_id (map u_id (users s)) (users_seq s)) (profiles s)"
  shows "response (register True form h now s) = Redirect To_profile_edit"
  using assms
  by (auto simp: register_def reply_def Let_def find_None_list_ex [symmetric]
      split: option.splits)

text \<open>
  C9, as stated, fails in one point: an attempt with an empty password never reaches the
  look-up of the email. It is turned away by the check for empty fields, which
  redirects to the registration form, not to the login page. Ann is registered; an
  attempt with her email in capitals and an empty password:
\<close>

theorem register_same_email_counterexample:
  "list_ex (\<lambda>u. u_email u = ''ann@example.org'') (users (register_ann_bob after_reset)) \<and>
   py_lower (normalize_text (Some (get_or_empty
       [''email'' \<mapsto> ''ANN@example.org  '', ''password'' \<mapsto> []] ''email''))) =
     ''ann@example.org'' \<and>
   response (register True [''email'' \<mapsto> ''ANN@example.org  '', ''password'' \<mapsto> []]
       ''hash3'' ''2024-05-01T10:00:02'' (register_ann_bob after_reset)) =
     Redirect To_register"
  by code_simp

text \<open>
  C9, amended. Let \<open>e\<close> be the email of an attempt, normalized and in lower case.
  If a user with email \<open>e\<close> exists, the attempt changes no table and redirects: to the
  login page when \<open>e\<close> and the password are non-empty, to the registration form when
  one of them is empty. A successful registration (the redirect to the profile editor)
  appends exactly one user row, with email \<open>e\<close>, and exactly one profile row, for that
  user; after it every attempt with an email that normalizes to \<open>e\<close> fails in the way
  just described. An attempt succeeds when \<open>e\<close> and the password are non-empty, no
  user has email \<open>e\<close> and no profile row holds the new key.
\<close>

theorem register_same_email:
  assumes e: "py_lower (normalize_text (Some (get_or_empty form ''email''))) = e"
  shows "(list_ex (\<lambda>u. u_email u = e) (users s) \<longrightarrow>
            state_after (register True form h now s) = s \<and>
            response (register True form h now s) =
              (if e = [] \<or> get_or_empty form ''password'' = []
               then Redirect To_register else Redirect To_login)) \<and>
         (response (register True form h now s) = Redirect To_profile_edit \<longrightarrow>
            \<not> list_ex (\<lambda>u. u_email u = e) (users s) \<and>
            users (state_after (register True form h now s)) =
              users s @ [\<lparr>u_id = next_id (map u_id (users s)) (users_seq s), u_email = e,
                          u_password_hash = h, u_created_at = now\<rparr>] \<and>
            profiles (state_after (register True form h now s)) =
              profiles s @ [new_profile (next_id (map u_id (users s)) (users_seq s)) now] \<and>
            (\<forall>form2 h2 now2.
               py_lower (normalize_text (Some (get_or_empty form2 ''email''))) = e \<longrightarrow>
               state_after (register True form2 h2 now2
                   (state_after (register True form h now s))) =
                 state_after (register True form h now s) \<and>
               response (register True form2 h2 now2
                   (state_after (register True form h now s))) =
                 (if get_or_empty form2 ''password'' = []
                  then Redirect To_register else Redirect To_login))) \<and>
         (e \<noteq> [] \<and> get_or_empty form ''password'' \<noteq> [] \<and>
          \<not> list_ex (\<lambda>u. u_email u = e) (users s) \<and>
          \<not> list_ex (\<lambda>p. user_id p = next_id (map u_id (users s)) (users_seq s))
               (profiles s) \<longrightarrow>
            response (register True form h now s) = Redirect To_profile_edit)"
proof (intro conjI impI allI)
  assume "list_ex (\<lambda>u. u_email u = e) (users s)"
  with e show "state_after (register True form h now s) = s"
    and "response (register True form h now s) =
           (if e = [] \<or> get_or_empty form ''password'' = []
            then Redirect To_register else Redirect To_login)"
    by (rule register_existing)+
next
  assume ok: "response (register True form h now s) = Redirect To_profile_edit"
  note su = register_success [OF e ok]
  from su show "\<not> list_ex (\<lambda>u. u_email u = e) (users s)" by simp
  from su show "users (state_after (register True form h now s)) =
              users s @ [\<lparr>u_id = next_id (map u_id (users s)) (users_seq s), u_email = e,
                          u_password_hash = h, u_created_at = now\<rparr>]" by simp
  from su show "profiles (state_after (register True form h now s)) =
              profiles s @ [new_profile (next_id (map u_id (users s)) (users_seq s)) now]"
    by simp
  have ne: "e \<noteq> []"
    using e ok by (auto simp: register_def reply_def Let_def split: if_splits)
  have ex: "list_ex (\<lambda>u. u_email u = e) (users (state_after (register True form h now s)))"
    using su by simp
  fix form2 h2 now2
  assume e2: "py_lower (normalize_text (Some (get_or_empty form2 ''email''))) = e"
  from register_existing [OF e2 ex]
  show "state_after (register True form2 h2 now2
            (state_after (register True form h now s))) =
          state_after (register True form h now s)"
    and "response (register True form2 h2 now2
            (state_after (register True form h now s))) =
          (if get_or_empty form2 ''password'' = []
           then Redirect To_register else Redirect To_login)"
    using ne by simp_all
next
  assume "e \<noteq> [] \<and> get_or_empty form ''password'' \<noteq> [] \<and>
          \<not> list_ex (\<lambda>u. u_email u = e) (users s) \<and>
          \<not> list_ex (\<lambda>p. user_id p = next_id (map u_id (users s)) (users_seq s))
               (profiles s)"
  with register_succeeds [OF e]
  show "response (register True form h now s) = Redirect To_profile_edit"
    by blast
qed

theorem register_same_email_witness:
  "py_lower (normalize_text (Some (get_or_empty ann_form ''email''))) = ''ann@example.org'' \<and>
   response (register True ann_form ''hash1'' ''2024-05-01T10:00:00'' after_reset) =
     Redirect To_profile_edit \<and>
   length (users (state_after
     (register True ann_form ''hash1'' ''2024-05-01T10:00:00'' after_reset))) = 1 \<and>
   length (profiles (state_after
     (register True ann_form ''hash1'' ''2024-05-01T10:00:00'' after_reset))) = 1 \<and>
   state_after (register True [''email'' \<mapsto> ''ANN@EXAMPLE.ORG'', ''password'' \<mapsto> ''x'']
       ''hash3'' ''2024-05-01T10:00:02''
       (state_after (register True ann_form ''hash1'' ''2024-05-01T10:00:00'' after_reset))) =
     state_after (register True ann_form ''hash1'' ''2024-05-01T10:00:00'' after_reset) \<and>
   response (register True [''email'' \<mapsto> ''ANN@EXAMPLE.ORG'', ''password'' \<mapsto> ''x'']
       ''hash3'' ''2024-05-01T10:00:02''
       (state_after (register True ann_form ''hash1'' ''2024-05-01T10:00:00'' after_reset))) =
     Redirect To_login"
proof -
  let ?r = "register True ann_form ''hash1'' ''2024-05-01T10:00:00'' after_reset"
  let ?form2 = "[''email'' \<mapsto> ''ANN@EXAMPLE.ORG'', ''password'' \<mapsto> ''x'']"
  have e: "py_lower (normalize_text (Some (get_or_empty ann_form ''email''))) =
      ''ann@example.org''"
    by code_simp
  have ok: "response ?r = Redirect To_profile_edit"
    by code_simp
  have e2: "py_lower (normalize_text (Some (get_or_empty ?form2 ''email''))) =
      ''ann@example.org''"
    by code_simp
  have pw: "get_or_empty ?form2 ''password'' \<noteq> []"
    by code_simp
  have u: "users after_reset = []" and p: "profiles after_reset = []"
    by (simp_all add: after_reset_def empty_database_def)
  from register_same_email [OF e, where s = after_reset and h = "''hash1''"
      and now = "''2024-05-01T10:00:00''"] ok
  have "users (state_after ?r) =
          users after_reset @
            [\<lparr>u_id = next_id (map u_id (users after_reset)) (users_seq after_reset),
              u_email = ''ann@example.org'', u_password_hash = ''hash1'',
              u_created_at = ''2024-05-01T10:00:00''\<rparr>]"
    and "profiles (state_after ?r) =
          profiles after_reset @
            [new_profile (next_id (map u_id (users after_reset)) (users_seq after_reset))
               ''2024-05-01T10:00:00'']"
    and "\<forall>form2 h2 now2.
           py_lower (normalize_text (Some (get_or_empty form2 ''email''))) =
             ''ann@example.org'' \<longrightarrow>
           state_after (register True form2 h2 now2 (state_after ?r)) = state_after ?r \<and>
           response (register True form2 h2 now2 (state_after ?r)) =
             (if get_or_empty form2 ''password'' = []
              then Redirect To_register else Redirect To_login)"
    by blast+
  with e ok e2 pw u p show ?thesis
    by simp
qed

section \<open>Start-up and the messages table\<close>

lemma init_db_no_file:
  "init_db None =
     [(''users'', [''id'', ''email'', ''password_hash'', ''created_at'']),
      (''profiles'',
       [''user_id'', ''photo_filename'', ''title'', ''full_name'', ''highest_qualification'',
        ''country'', ''university'', ''school_faculty'', ''position'', ''supervisor_name'',
        ''bio'', ''skills'', ''device_access'', ''updated_at'']),
      (''messages'',
       [''id'', ''sender_id'', ''receiver_id'', ''body'', ''created_at'', ''is_read''])]"
  by code_simp

lemma main_reset_messages:
  "columns_of (main True file) ''messages'' =
     [''id'', ''sender_id'', ''receiver_id'', ''body'', ''created_at'', ''is_read'']"
  by (simp add: main_def reset_db_def init_db_no_file columns_of_def)

lemma main_fresh_messages:
  "columns_of (main False None) ''messages'' =
     [''id'', ''sender_id'', ''recipient_id'', ''body'', ''created_at'', ''read_at'']"
  by code_simp

lemma main_users_profiles:
  "list_all (\<lambda>reset.
     prepares (columns_of (main reset None) ''users'')
       [''id'', ''email'', ''password_hash'', ''created_at''] \<and>
     prepares (columns_of (main reset None) ''profiles'')
       [''user_id'', ''photo_filename'', ''title'', ''full_name'', ''highest_qualification'',
        ''country'', ''university'', ''school_faculty'', ''position'', ''supervisor_name'',
        ''bio'', ''skills'', ''device_access'', ''updated_at'']) [False, True]"
  by code_simp

lemma fresh_start_cannot_prepare:
  "\<not> prepares (messages_columns fresh_start)
       [''sender_id'', ''receiver_id'', ''body'', ''created_at'']"
  by code_simp

lemma after_reset_prepares:
  "prepares (messages_columns after_reset)
     [''id'', ''sender_id'', ''receiver_id'', ''body'', ''created_at'', ''is_read'']"
  by code_simp

section \<open>The program as a whole\<close>

lemma mark_read_twice [simp]: "mark_read a b (mark_read a b m) = mark_read a b m"
  by (simp add: mark_read_def)

lemma mark_read_comp [simp]: "mark_read a b \<circ> mark_read a b = mark_read a b"
  by (rule ext) simp

lemma mark_read_ids [simp]:
  "m_sender_id (mark_read a b m) = m_sender_id m"
  "m_receiver_id (mark_read a b m) = m_receiver_id m"
  "m_id (mark_read a b m) = m_id m"
  by (simp_all add: mark_read_def)

lemma no_profile_iff: "fetch_profile s i = None \<longleftrightarrow> i \<notin> set (map user_id (profiles s))"
  by (auto simp: fetch_profile_def find_None_iff)

lemma has_profile_iff:
  "(\<exists>p. fetch_profile s i = Some p) \<longleftrightarrow> i \<in> set (map user_id (profiles s))"
  using no_profile_iff [of s i] by (cases "fetch_profile s i") auto

lemma users_have_profiles_iff:
  "users_have_profiles s \<longleftrightarrow> set (map u_id (users s)) \<subseteq> set (map user_id (profiles s))"
  by (auto simp: users_have_profiles_def has_profile_iff list_all_iff)

lemma ensure_profile_Inr:
  assumes "ensure_profile now uid s = Inr s1"
  shows "users s1 = users s" and "messages s1 = messages s"
    and "messages_columns s1 = messages_columns s"
    and "set (map user_id (profiles s)) \<subseteq> set (map user_id (profiles s1))"
    and "uid \<in> set (map user_id (profiles s1))"
proof -
  show "users s1 = users s" and "messages s1 = messages s"
    and "messages_columns s1 = messages_columns s"
    and "set (map user_id (profiles s)) \<subseteq> set (map user_id (profiles s1))"
    using assms
    by (auto simp: ensure_profile_def split: option.splits if_splits)
  show "uid \<in> set (map user_id (profiles s1))"
  proof (cases "fetch_profile s uid")
    case None
    with assms show ?thesis
      by (auto simp: ensure_profile_def new_profile_def split: if_splits)
  next
    case (Some p)
    with assms have "s1 = s" by (simp add: ensure_profile_def)
    with Some has_profile_iff [of s uid] show ?thesis by simp
  qed
qed

lemma profile_edit_Inl:
  "ensure_profile now uid s = Inl e \<Longrightarrow>
   profile_edit sf now ts post form photo uid s = reply (Uncaught e) [] s"
  by (simp add: profile_edit_def)

lemma profile_edit_Inr:
  assumes "ensure_profile now uid s = Inr s1"
  shows "users (state_after (profile_edit sf now ts post form photo uid s)) = users s1"
    and "messages (state_after (profile_edit sf now ts post form photo uid s)) = messages s1"
    and "messages_columns (state_after (profile_edit sf now ts post form photo uid s)) =
           messages_columns s1"
    and "map user_id (profiles (state_after (profile_edit sf now ts post form photo uid s))) =
           map user_id (profiles s1)"
  using assms
  by (auto simp: profile_edit_def reply_def Let_def if_distrib [of user_id]
      split: sum.splits prod.splits)

lemma uhp_start: "users_have_profiles (empty_database cat)"
  by (simp add: users_have_profiles_def empty_database_def)

lemma uhp_register:
  assumes "users_have_profiles s"
  shows "users_have_profiles (state_after (register post form h now s))"
  using assms
  by (auto simp: users_have_profiles_iff register_def reply_def Let_def new_profile_def
      split: option.splits)

lemma uhp_send:
  "users_have_profiles s \<Longrightarrow>
   users_have_profiles (state_after (send_message target form now uid s))"
  by (simp add: users_have_profiles_iff send_message_def reply_def Let_def)

lemma uhp_thread:
  "users_have_profiles s \<Longrightarrow> users_have_profiles (state_after (thread other uid s))"
  by (simp add: users_have_profiles_iff thread_def reply_def Let_def split: option.splits)

lemma state_after_search [simp]: "state_after (search args uid s) = s"
  by (simp add: search_def reply_def Let_def split: sum.splits)

lemma uhp_profile_edit:
  assumes "users_have_profiles s"
  shows "users_have_profiles (state_after (profile_edit sf now ts post form photo uid s))"
proof (cases "ensure_profile now uid s")
  case (Inl e)
  with assms show ?thesis by (simp add: profile_edit_Inl reply_def)
next
  case (Inr s1)
  from assms ensure_profile_Inr [OF Inr] profile_edit_Inr [OF Inr, of sf ts post form photo]
  show ?thesis
    unfolding users_have_profiles_iff by auto
qed

lemma reachable_users_have_profiles: "reachable s \<Longrightarrow> users_have_profiles s"
  by (induction rule: reachable.induct)
    (simp_all add: uhp_start uhp_register uhp_profile_edit uhp_send uhp_thread)

lemma layout_start: "messages_layout (empty_database (main reset None))"
proof (cases reset)
  case True
  then show ?thesis
    by (simp add: messages_layout_def empty_database_def main_reset_messages)
next
  case False
  then show ?thesis
    by (simp add: messages_layout_def empty_database_def main_fresh_messages)
qed

lemma layout_register:
  "messages_layout s \<Longrightarrow> messages_layout (state_after (register post form h now s))"
  by (auto simp: messages_layout_def register_def reply_def Let_def split: option.splits)

lemma layout_send:
  "messages_layout s \<Longrightarrow>
   messages_layout (state_after (send_message target form now uid s))"
  by (auto simp: messages_layout_def send_message_def reply_def Let_def prepares_def)

lemma layout_thread:
  "messages_layout s \<Longrightarrow> messages_layout (state_after (thread other uid s))"
  by (auto simp: messages_layout_def thread_def reply_def Let_def split: option.splits)

lemma layout_profile_edit:
  assumes "messages_layout s"
  shows "messages_layout (state_after (profile_edit sf now ts post form photo uid s))"
proof (cases "ensure_profile now uid s")
  case (Inl e)
  with assms show ?thesis by (simp add: profile_edit_Inl reply_def)
next
  case (Inr s1)
  from assms ensure_profile_Inr [OF Inr] profile_edit_Inr [OF Inr, of sf ts post form photo]
  show ?thesis
    by (simp add: messages_layout_def)
qed

lemma reachable_messages_layout: "reachable s \<Longrightarrow> messages_layout s"
  by (induction rule: reachable.induct)
    (simp_all add: layout_start layout_register layout_profile_edit layout_send layout_thread)

lemma no_self_register:
  "no_self_messages s \<Longrightarrow> no_self_messages (state_after (register post form h now s))"
  by (auto simp: no_self_messages_def register_def reply_def Let_def split: option.splits)

lemma no_self_send:
  "no_self_messages s \<Longrightarrow>
   no_self_messages (state_after (send_message target form now uid s))"
  by (simp add: no_self_messages_def send_message_def reply_def Let_def)

lemma no_self_thread:
  "no_self_messages s \<Longrightarrow> no_self_messages (state_after (thread other uid s))"
  by (auto simp: no_self_messages_def thread_def reply_def Let_def list_all_iff
      split: option.splits)

lemma no_self_profile_edit:
  assumes "no_self_messages s"
  shows "no_self_messages (state_after (profile_edit sf now ts post form photo uid s))"
proof (cases "ensure_profile now uid s")
  case (Inl e)
  with assms show ?thesis by (simp add: profile_edit_Inl reply_def)
next
  case (Inr s1)
  from assms ensure_profile_Inr [OF Inr] profile_edit_Inr [OF Inr, of sf ts post form photo]
  show ?thesis
    by (simp add: no_self_messages_def)
qed

lemma reachable_no_self_messages: "reachable s \<Longrightarrow> no_self_messages s"
  by (induction rule: reachable.induct)
    (simp_all add: no_self_register no_self_profile_edit no_self_send no_self_thread,
     simp add: no_self_messages_def empty_database_def)

section \<open>Sending a message\<close>

text \<open>
  C2. Started with no database file and without \<open>--reset-db\<close>, the program creates the
  \<open>messages\<close> table in \<open>ensure_schema\<close>, with the columns \<open>recipient_id\<close> and
  \<open>read_at\<close>; \<open>init_db\<close> then finds the table and leaves it. Ann and Bob register.
  Ann's message to Bob, with a body that is not empty, is not appended: the \<open>INSERT\<close>
  names the column \<open>receiver_id\<close>, the statement does not compile, and the request
  ends in an uncaught \<open>OperationalError\<close>.
\<close>

theorem send_message_fresh_start:
  "reachable (register_ann_bob fresh_start) \<and>
   fetch_user (register_ann_bob fresh_start) 1 \<noteq> None \<and>
   fetch_user (register_ann_bob fresh_start) 2 \<noteq> None \<and>
   normalize_text (Some (get_or_empty hello_form ''body'')) = ''hello there'' \<and>
   send_message 2 hello_form ''2024-05-01T10:05:00'' 1 (register_ann_bob fresh_start) =
     reply (Uncaught OperationalError) [] (register_ann_bob fresh_start) \<and>
   messages (state_after (send_message 2 hello_form ''2024-05-01T10:05:00'' 1
     (register_ann_bob fresh_start))) = []"
proof -
  have "reachable (register_ann_bob fresh_start)"
    unfolding register_ann_bob_def fresh_start_def by (intro reachable.intros)
  moreover have
    "fetch_user (register_ann_bob fresh_start) 1 \<noteq> None \<and>
     fetch_user (register_ann_bob fresh_start) 2 \<noteq> None \<and>
     normalize_text (Some (get_or_empty hello_form ''body'')) = ''hello there'' \<and>
     send_message 2 hello_form ''2024-05-01T10:05:00'' 1 (register_ann_bob fresh_start) =
       reply (Uncaught OperationalError) [] (register_ann_bob fresh_start) \<and>
     messages (state_after (send_message 2 hello_form ''2024-05-01T10:05:00'' 1
       (register_ann_bob fresh_start))) = []"
    by code_simp
  ultimately show ?thesis by (rule conjI)
qed

text \<open>
  The handler itself does what the specification says wherever the table has the columns
  of \<open>init_db\<close>, as after \<open>--reset-db\<close>: the same request appends the row, the four
  cases of C2 are the four branches, and no step of the program ever leaves a message
  whose sender is its receiver.
\<close>

lemma send_message_after_reset:
  "response (send_message 2 hello_form ''2024-05-01T10:05:00'' 1 (register_ann_bob after_reset)) =
     Redirect (To_thread 2) \<and>
   messages (state_after (send_message 2 hello_form ''2024-05-01T10:05:00'' 1
       (register_ann_bob after_reset))) =
     [\<lparr>m_id = 1, m_sender_id = 1, m_receiver_id = 2, m_body = ''hello there'',
       m_created_at = ''2024-05-01T10:05:00'', m_is_read = 0\<rparr>]"
  by code_simp

lemma send_message_cases:
  assumes "prepares (messages_columns s)
             [''sender_id'', ''receiver_id'', ''body'', ''created_at'']"
    and "fetch_user s uid \<noteq> None"
  shows "send_message target form now uid s =
     (if uid = target
      then (reply (Redirect (To_view_profile target))
              [(''You cannot message yourself.'', ''warning'')] s)\<lparr>opened_db := False\<rparr>
      else if normalize_text (Some (get_or_empty form ''body'')) = []
      then (reply (Redirect (To_view_profile target))
              [(''Message body cannot be empty.'', ''error'')] s)\<lparr>opened_db := False\<rparr>
      else if fetch_user s target = None then reply (Abort 404) [] s
      else reply (Redirect (To_thread target)) [(''Message sent.'', ''success'')]
             (s\<lparr>messages := messages s @
                   [\<lparr>m_id = next_id (map m_id (messages s)) (messages_seq s),
                     m_sender_id = uid, m_receiver_id = target,
                     m_body = normalize_text (Some (get_or_empty form ''body'')),
                     m_created_at = now, m_is_read = 0\<rparr>],
                 messages_seq := next_id (map m_id (messages s)) (messages_seq s)\<rparr>))"
  using assms by (auto simp: send_message_def Let_def)

lemma send_message_no_self:
  assumes "list_all (\<lambda>m. m_sender_id m \<noteq> m_receiver_id m) (messages s)"
  shows "list_all (\<lambda>m. m_sender_id m \<noteq> m_receiver_id m)
           (messages (state_after (send_message target form now uid s)))"
  using assms by (simp add: send_message_def Let_def reply_def)

lemma thread_opens:
  assumes "uid \<noteq> other" and "fetch_profile s other \<noteq> None"
    and "prepares (messages_columns s) [''id'', ''sender_id'', ''receiver_id'', ''is_read'']"
  shows "\<exists>msgs name. thread other uid s =
           reply (Render (Thread_page msgs other name uid)) []
             (s\<lparr>messages := map (mark_read uid other) (messages s)\<rparr>)"
proof -
  from assms(2) obtain p where p: "fetch_profile s other = Some p"
    by auto
  have "thread other uid s =
      reply (Render (Thread_page
          (take 500 (sort_key m_id
             (filter (\<lambda>m. (m_sender_id m = uid \<and> m_receiver_id m = other) \<or>
                           (m_sender_id m = other \<and> m_receiver_id m = uid))
                (messages s))))
          other
          (case full_name p of
             None \<Rightarrow> ''User '' @ str_int other
           | Some n \<Rightarrow> if n = [] then ''User '' @ str_int other else n)
          uid)) []
        (s\<lparr>messages := map (mark_read uid other) (messages s)\<rparr>)"
    using assms(1,3) p by (simp add: thread_def Let_def prepares_def)
  then show ?thesis by blast
qed

section \<open>Opening a thread\<close>

lemma thread_state:
  assumes "reachable s" and "uid \<noteq> other" and "fetch_user s other \<noteq> None"
  shows "state_after (thread other uid s) =
           s\<lparr>messages := map (mark_read uid other) (messages s)\<rparr>"
proof -
  from assms(3) have "other \<in> set (map u_id (users s))"
    by (auto simp: fetch_user_def find_None_iff)
  with reachable_users_have_profiles [OF assms(1)]
  have "other \<in> set (map user_id (profiles s))"
    unfolding users_have_profiles_iff by blast
  then have prof: "fetch_profile s other \<noteq> None"
    by (simp add: no_profile_iff)
  from reachable_messages_layout [OF assms(1)]
  consider "messages_columns s =
      [''id'', ''sender_id'', ''receiver_id'', ''body'', ''created_at'', ''is_read'']"
    | "messages_columns s =
      [''id'', ''sender_id'', ''recipient_id'', ''body'', ''created_at'', ''read_at'']"
      "messages s = []"
    unfolding messages_layout_def by blast
  then show ?thesis
  proof cases
    case 1
    then have "prepares (messages_columns s)
        [''id'', ''sender_id'', ''receiver_id'', ''is_read'']"
      by (simp add: prepares_def)
    from thread_opens [OF assms(2) prof this] show ?thesis
      by (auto simp: reply_def)
  next
    case 2
    then have "\<not> prepares (messages_columns s) [''sender_id'', ''receiver_id'', ''id'']"
      by (simp add: prepares_def)
    with assms(2) prof have "state_after (thread other uid s) = s"
      by (auto simp: thread_def reply_def Let_def)
    with 2 show ?thesis by simp
  qed
qed

text \<open>
  C4. In every reachable state, for distinct users A (the session user \<open>uid\<close>) and B
  (\<open>other\<close>, who has a user row), the request for the thread view changes nothing but
  the \<open>messages\<close> table, and there it sets the read flag of exactly the messages from B
  to A whose flag was 0 and leaves every other message as it was. A second request
  right after the first leaves the state as it is. Where the \<open>messages\<close> table has the
  columns of \<open>init_db\<close>, the request renders the thread page.
\<close>

theorem thread_marks_read:
  assumes "reachable s" and "uid \<noteq> other" and "fetch_user s other \<noteq> None"
  shows "state_after (thread other uid s) =
           s\<lparr>messages := messages (state_after (thread other uid s))\<rparr> \<and>
         length (messages (state_after (thread other uid s))) = length (messages s) \<and>
         (\<forall>i < length (messages s).
            messages (state_after (thread other uid s)) ! i =
              (if m_sender_id (messages s ! i) = other \<and> m_receiver_id (messages s ! i) = uid \<and>
                  m_is_read (messages s ! i) = 0
               then (messages s ! i)\<lparr>m_is_read := 1\<rparr> else messages s ! i)) \<and>
         state_after (thread other uid (state_after (thread other uid s))) =
           state_after (thread other uid s) \<and>
         (prepares (messages_columns s) [''id'', ''sender_id'', ''receiver_id'', ''is_read'']
          \<longrightarrow> (\<exists>msgs name. response (thread other uid s) =
                  Render (Thread_page msgs other name uid)))"
proof -
  let ?s' = "state_after (thread other uid s)"
  have s': "?s' = s\<lparr>messages := map (mark_read uid other) (messages s)\<rparr>"
    using assms by (rule thread_state)
  have r': "reachable ?s'"
    using assms(1) by (rule reachable.thread)
  have u': "fetch_user ?s' other \<noteq> None"
    using assms(3) s' by (simp add: fetch_user_def)
  have "state_after (thread other uid ?s') =
      ?s'\<lparr>messages := map (mark_read uid other) (messages ?s')\<rparr>"
    using r' assms(2) u' by (rule thread_state)
  also have "\<dots> = ?s'"
    using s' by simp
  finally have idem: "state_after (thread other uid ?s') = ?s'" .
  have page: "\<exists>msgs name. response (thread other uid s) =
      Render (Thread_page msgs other name uid)"
    if "prepares (messages_columns s) [''id'', ''sender_id'', ''receiver_id'', ''is_read'']"
  proof -
    from assms(3) have "other \<in> set (map u_id (users s))"
      by (auto simp: fetch_user_def find_None_iff)
    with reachable_users_have_profiles [OF assms(1)]
    have "fetch_profile s other \<noteq> None"
      unfolding users_have_profiles_iff by (auto simp: no_profile_iff)
    from thread_opens [OF assms(2) this that] show ?thesis
      by (auto simp: reply_def)
  qed
  from s' idem page show ?thesis
    by (auto simp: mark_read_def)
qed

theorem thread_marks_read_witness:
  "reachable one_message \<and> (1::int) \<noteq> 2 \<and> fetch_user one_message 2 \<noteq> None \<and>
   map (\<lambda>m. (m_sender_id m, m_receiver_id m, m_is_read m)) (messages one_message) =
     [(2, 1, 0)] \<and>
   map (\<lambda>m. (m_sender_id m, m_receiver_id m, m_is_read m))
     (messages (state_after (thread 2 1 one_message))) = [(2, 1, 1)] \<and>
   state_after (thread 2 1 (state_after (thread 2 1 one_message))) =
     state_after (thread 2 1 one_message)"
proof -
  have r: "reachable one_message"
    unfolding one_message_def register_ann_bob_def after_reset_def
    by (intro reachable.intros)
  have d: "(1::int) \<noteq> 2" by simp
  have u: "fetch_user one_message 2 \<noteq> None" by code_simp
  have m: "map (\<lambda>m. (m_sender_id m, m_receiver_id m, m_is_read m)) (messages one_message) =
      [(2, 1, 0)]"
    by code_simp
  have m': "map (\<lambda>m. (m_sender_id m, m_receiver_id m, m_is_read m))
      (messages (state_after (thread 2 1 one_message))) = [(2, 1, 1)]"
    by code_simp
  from thread_marks_read [OF r d u] r u m m' show ?thesis
    by simp
qed

section \<open>The profile editor\<close>

lemma find_map_update:
  assumes "\<And>p. user_id (f p) = user_id p"
  shows "find (\<lambda>p. user_id p = uid) (map (\<lambda>p. if user_id p = uid then f p else p) ps) =
         map_option f (find (\<lambda>p. user_id p = uid) ps)"
  using assms by (induction ps) auto

lemma find_append_new: "find P xs = None \<Longrightarrow> P x \<Longrightarrow> find P (xs @ [x]) = Some x"
  by (induction xs) (auto split: if_splits)

lemma ensure_profile_row:
  assumes "ensure_profile now uid s = Inr s1"
  shows "\<exists>p. fetch_profile s1 uid = Some p \<and> user_id p = uid \<and>
             photo_filename p = stored_photo s uid"
proof (cases "fetch_profile s uid")
  case None
  with assms have "s1 = s\<lparr>profiles := profiles s @ [new_profile uid now]\<rparr>"
    by (auto simp: ensure_profile_def split: if_splits)
  moreover from None have "find (\<lambda>p. user_id p = uid) (profiles s) = None"
    by (simp add: fetch_profile_def)
  then have "find (\<lambda>p. user_id p = uid) (profiles s @ [new_profile uid now]) =
      Some (new_profile uid now)"
    by (rule find_append_new) (simp add: new_profile_def)
  ultimately show ?thesis
    using None by (simp add: fetch_profile_def stored_photo_def new_profile_def)
next
  case (Some p)
  with assms have "s1 = s" by (simp add: ensure_profile_def)
  moreover from Some have "user_id p = uid"
    by (auto simp: fetch_profile_def find_Some_iff)
  ultimately show ?thesis using Some by (simp add: stored_photo_def)
qed

lemma photo_cases:
  "(if photo \<noteq> None \<and> photo \<noteq> Some [] then save_photo sf ts photo uid ups
    else (Inr [], ups)) =
   (if no_new_photo sf photo then (Inr [], ups)
    else if \<not> allowed_file (sf (the photo))
    then (Inl ''Invalid file type. Use PNG/JPG/JPEG/WEBP only.'', ups)
    else (Inr (generated_name uid ts (sf (the photo))),
          ups @ [generated_name uid ts (sf (the photo))]))"
  by (auto simp: save_photo_def no_new_photo_def generated_name_def Let_def
      split: option.splits)

lemma generated_name_not_empty [simp]: "generated_name uid ts n \<noteq> []"
  by (simp add: generated_name_def)

lemma profile_edit_post:
  assumes "ensure_profile now uid s = Inr s1"
  shows "profile_edit sf now ts True form photo uid s =
     (if \<not> no_new_photo sf photo \<and> \<not> allowed_file (sf (the photo))
      then reply (Redirect To_profile_edit)
             [(''Invalid file type. Use PNG/JPG/JPEG/WEBP only.'', ''error'')] s1
      else if \<not> required_filled form
      then reply (Redirect To_profile_edit)
             [(''Please fill all required fields (device access is optional).'',
               ''warning'')]
             (s1\<lparr>uploads := (if no_new_photo sf photo then uploads s1
                               else uploads s1 @ [generated_name uid ts (sf (the photo))])\<rparr>)
      else reply (Redirect To_profile_card) [(''Profile saved.'', ''success'')]
             (s1\<lparr>uploads := (if no_new_photo sf photo then uploads s1
                               else uploads s1 @ [generated_name uid ts (sf (the photo))]),
                 profiles := map (\<lambda>p. if user_id p = uid
                                       then edited sf now ts form photo uid p else p)
                               (profiles s1)\<rparr>))"
  unfolding profile_edit_def photo_cases
  using assms
  by (simp add: Let_def required_filled_def submitted_def edited_def cong: if_cong)

lemma ensure_profile_cases:
  "ensure_profile now uid s =
     (if fetch_profile s uid \<noteq> None then Inr s
      else if fetch_user s uid \<noteq> None
      then Inr (s\<lparr>profiles := profiles s @ [new_profile uid now]\<rparr>)
      else Inl IntegrityError)"
  by (auto simp: ensure_profile_def split: option.splits)

lemma profile_edit_saved_iff:
  "response (profile_edit sf now ts True form photo uid s) = Redirect To_profile_card \<longleftrightarrow>
     (fetch_profile s uid \<noteq> None \<or> fetch_user s uid \<noteq> None) \<and>
     (no_new_photo sf photo \<or> allowed_file (sf (the photo))) \<and> required_filled form"
proof (cases "ensure_profile now uid s")
  case (Inl e)
  then show ?thesis
    by (auto simp: profile_edit_def reply_def ensure_profile_cases split: if_splits)
next
  case (Inr s1)
  then have "fetch_profile s uid \<noteq> None \<or> fetch_user s uid \<noteq> None"
    by (auto simp: ensure_profile_cases split: if_splits)
  then show ?thesis
    by (auto simp: profile_edit_post [OF Inr] reply_def)
qed

lemma profile_edit_row:
  assumes "response (profile_edit sf now ts True form photo uid s) = Redirect To_profile_card"
  shows "\<exists>p1. user_id p1 = uid \<and> photo_filename p1 = stored_photo s uid \<and>
              fetch_profile (state_after (profile_edit sf now ts True form photo uid s)) uid =
                Some (edited sf now ts form photo uid p1)"
proof (cases "ensure_profile now uid s")
  case (Inl e)
  with assms show ?thesis by (simp add: profile_edit_def reply_def)
next
  case (Inr s1)
  from ensure_profile_row [OF Inr] obtain p1 where
    p1: "fetch_profile s1 uid = Some p1" "user_id p1 = uid"
      "photo_filename p1 = stored_photo s uid"
    by blast
  have k: "user_id (edited sf now ts form photo uid p) = user_id p" for p
    by (simp add: edited_def)
  from assms have "fetch_profile (state_after (profile_edit sf now ts True form photo uid s)) uid
      = Some (edited sf now ts form photo uid p1)"
    using p1(1) find_map_update [of "edited sf now ts form photo uid" uid "profiles s1", OF k]
    by (auto simp: profile_edit_post [OF Inr] reply_def fetch_profile_def split: if_splits)
  with p1 show ?thesis by blast
qed

text \<open>
  C6. For every profile-edit POST that is saved (the redirect to the profile card):
  if no new photo comes with it (no file part, an empty file name, or a name that the
  sanitizer empties), the stored \<open>photo_filename\<close> is what it was before the request;
  if a file comes with a name that the sanitizer does not empty, its extension is an
  allowed one and \<open>photo_filename\<close> is the generated name. In both cases every other
  text column holds the submitted, normalized value and \<open>updated_at\<close> the time of the
  request. (The supervisor column is the subject of C8.)
\<close>

theorem profile_edit_photo:
  assumes "response (profile_edit sf now ts True form photo uid s) = Redirect To_profile_card"
  shows "\<exists>p. fetch_profile (state_after (profile_edit sf now ts True form photo uid s)) uid =
               Some p \<and>
             (no_new_photo sf photo \<longrightarrow> photo_filename p = stored_photo s uid) \<and>
             (\<forall>client_name.
                photo = Some client_name \<and> client_name \<noteq> [] \<and> sf client_name \<noteq> [] \<longrightarrow>
                allowed_file (sf client_name) \<and>
                photo_filename p = Some (generated_name uid ts (sf client_name))) \<and>
             title p = Some (submitted form ''title'') \<and>
             full_name p = Some (submitted form ''full_name'') \<and>
             highest_qualification p = Some (submitted form ''highest_qualification'') \<and>
             country p = Some (submitted form ''country'') \<and>
             university p = Some (submitted form ''university'') \<and>
             school_faculty p = Some (submitted form ''school_faculty'') \<and>
             position p = Some (submitted form ''position'') \<and>
             bio p = Some (submitted form ''bio'') \<and>
             skills p = Some (submitted form ''skills'') \<and>
             device_access p = Some (submitted form ''device_access'') \<and>
             updated_at p = Some now"
proof -
  from profile_edit_row [OF assms] obtain p1 where
    p1: "photo_filename p1 = stored_photo s uid"
      "fetch_profile (state_after (profile_edit sf now ts True form photo uid s)) uid =
         Some (edited sf now ts form photo uid p1)"
    by blast
  define p where "p = edited sf now ts form photo uid p1"
  from assms have ok: "no_new_photo sf photo \<or> allowed_file (sf (the photo))"
    by (simp add: profile_edit_saved_iff)
  have row: "fetch_profile (state_after (profile_edit sf now ts True form photo uid s)) uid =
      Some p"
    using p1(2) by (simp add: p_def)
  have kept: "no_new_photo sf photo \<longrightarrow> photo_filename p = stored_photo s uid"
    using p1(1) by (simp add: p_def edited_def)
  have replaced: "\<forall>client_name.
      photo = Some client_name \<and> client_name \<noteq> [] \<and> sf client_name \<noteq> [] \<longrightarrow>
      allowed_file (sf client_name) \<and>
      photo_filename p = Some (generated_name uid ts (sf client_name))"
    using ok by (auto simp: p_def edited_def no_new_photo_def)
  have fields:
    "title p = Some (submitted form ''title'')"
    "full_name p = Some (submitted form ''full_name'')"
    "highest_qualification p = Some (submitted form ''highest_qualification'')"
    "country p = Some (submitted form ''country'')"
    "university p = Some (submitted form ''university'')"
    "school_faculty p = Some (submitted form ''school_faculty'')"
    "position p = Some (submitted form ''position'')"
    "bio p = Some (submitted form ''bio'')"
    "skills p = Some (submitted form ''skills'')"
    "device_access p = Some (submitted form ''device_access'')"
    "updated_at p = Some now"
    by (simp_all add: p_def edited_def)
  from row kept replaced fields show ?thesis
    by blast
qed

theorem profile_edit_photo_witness:
  "response (profile_edit secure_filename_ascii ''2024-05-01T10:10:00'' 1714558200 True
       edit_form (Some ''my photo.PNG'') 1 two_users) = Redirect To_profile_card \<and>
   stored_photo two_users 1 = None \<and>
   (\<exists>p. fetch_profile (state_after
            (profile_edit secure_filename_ascii ''2024-05-01T10:10:00'' 1714558200 True
               edit_form (Some ''my photo.PNG'') 1 two_users)) 1 = Some p \<and>
        photo_filename p = Some ''user_1_1714558200.png'' \<and>
        full_name p = Some ''Ann Lee'' \<and>
        updated_at p = Some ''2024-05-01T10:10:00'')"
proof -
  let ?r = "profile_edit secure_filename_ascii ''2024-05-01T10:10:00'' 1714558200 True
      edit_form (Some ''my photo.PNG'') 1 two_users"
  have ok: "response ?r = Redirect To_profile_card"
    by code_simp
  have n: "''my photo.PNG'' \<noteq> []" "secure_filename_ascii ''my photo.PNG'' \<noteq> []"
    by code_simp+
  have g: "generated_name 1 1714558200 (secure_filename_ascii ''my photo.PNG'') =
      ''user_1_1714558200.png''"
    by code_simp
  have f: "submitted edit_form ''full_name'' = ''Ann Lee''"
    by code_simp
  have st: "stored_photo two_users 1 = None"
    by code_simp
  from profile_edit_photo [OF ok] obtain p where
    "fetch_profile (state_after ?r) 1 = Some p"
    "\<forall>client_name.
       Some ''my photo.PNG'' = Some client_name \<and> client_name \<noteq> [] \<and>
       secure_filename_ascii client_name \<noteq> [] \<longrightarrow>
       allowed_file (secure_filename_ascii client_name) \<and>
       photo_filename p = Some (generated_name 1 1714558200 (secure_filename_ascii client_name))"
    "full_name p = Some (submitted edit_form ''full_name'')"
    "updated_at p = Some ''2024-05-01T10:10:00''"
    by blast
  with n g f have "fetch_profile (state_after ?r) 1 = Some p \<and>
      photo_filename p = Some ''user_1_1714558200.png'' \<and>
      full_name p = Some ''Ann Lee'' \<and> updated_at p = Some ''2024-05-01T10:10:00''"
    by simp
  with ok st show ?thesis by blast
qed



text \<open>
  C7, as stated, fails for a file name that the sanitizer empties: \<open>save_photo\<close> then
  returns as if no file had come, no error is reported and the edit is saved. werkzeug's
  sanitizer strips dots and underscores at both ends, so the name \<open>_._\<close>, whose
  extension \<open>._\<close> is not an allowed one, is such a name. Ann's row is changed:
\<close>

theorem profile_edit_bad_extension_counterexample:
  "path_suffix ''_._'' = ''._'' \<and> \<not> allowed_file ''_._'' \<and>
   secure_filename_ascii ''_._'' = [] \<and>
   response (profile_edit secure_filename_ascii ''2024-05-01T10:10:00'' 1714558200 True
       edit_form (Some ''_._'') 1 two_users) = Redirect To_profile_card \<and>
   flashed (profile_edit secure_filename_ascii ''2024-05-01T10:10:00'' 1714558200 True
       edit_form (Some ''_._'') 1 two_users) = [(''Profile saved.'', ''success'')] \<and>
   map_option full_name (fetch_profile two_users 1) = Some None \<and>
   map_option full_name (fetch_profile (state_after
       (profile_edit secure_filename_ascii ''2024-05-01T10:10:00'' 1714558200 True
          edit_form (Some ''_._'') 1 two_users)) 1) = Some (Some ''Ann Lee'')"
  by code_simp

text \<open>
  C7, amended. For every profile-edit POST with a file whose name is not empty, is not
  emptied by the sanitizer and, sanitized, has an extension outside \<open>.png\<close>, \<open>.jpg\<close>,
  \<open>.jpeg\<close>, \<open>.webp\<close>: the handler flashes the error \<open>Invalid file type\<close>, redirects to
  the editor, and for a user with a profile row leaves the whole state, and so the
  whole row, as it was. (A user without a row has got the blank row that every visit of
  the editor creates.)
\<close>

theorem profile_edit_bad_extension:
  assumes "fetch_profile s uid \<noteq> None \<or> fetch_user s uid \<noteq> None"
    and "photo = Some client_name" and "client_name \<noteq> []" and "sf client_name \<noteq> []"
    and "\<not> allowed_file (sf client_name)"
  shows "profile_edit sf now ts True form photo uid s =
           reply (Redirect To_profile_edit)
             [(''Invalid file type. Use PNG/JPG/JPEG/WEBP only.'', ''error'')]
             (if fetch_profile s uid \<noteq> None then s
              else s\<lparr>profiles := profiles s @ [new_profile uid now]\<rparr>)"
proof -
  let ?s1 = "if fetch_profile s uid \<noteq> None then s
             else s\<lparr>profiles := profiles s @ [new_profile uid now]\<rparr>"
  from assms(1) have e: "ensure_profile now uid s = Inr ?s1"
    by (auto simp: ensure_profile_cases)
  from assms(2-5) have "\<not> no_new_photo sf photo" "\<not> allowed_file (sf (the photo))"
    by (simp_all add: no_new_photo_def)
  with profile_edit_post [OF e] show ?thesis
    by simp
qed

theorem profile_edit_bad_extension_witness:
  "fetch_profile two_users 1 \<noteq> None \<and> secure_filename_ascii ''My CV.pdf'' = ''My_CV.pdf'' \<and>
   \<not> allowed_file ''My_CV.pdf'' \<and>
   profile_edit secure_filename_ascii ''2024-05-01T10:10:00'' 1714558200 True edit_form
       (Some ''My CV.pdf'') 1 two_users =
     reply (Redirect To_profile_edit)
       [(''Invalid file type. Use PNG/JPG/JPEG/WEBP only.'', ''error'')] two_users"
proof -
  have p: "fetch_profile two_users 1 \<noteq> None"
    by code_simp
  have sn: "secure_filename_ascii ''My CV.pdf'' = ''My_CV.pdf''"
    by code_simp
  have na: "\<not> allowed_file ''My_CV.pdf''"
    by code_simp
  have h1: "fetch_profile two_users 1 \<noteq> None \<or> fetch_user two_users 1 \<noteq> None"
    using p by simp
  have h2: "Some ''My CV.pdf'' = Some ''My CV.pdf''" by simp
  have h3: "''My CV.pdf'' \<noteq> []" by simp
  have h4: "secure_filename_ascii ''My CV.pdf'' \<noteq> []" using sn by simp
  have h5: "\<not> allowed_file (secure_filename_ascii ''My CV.pdf'')" using sn na by simp
  from profile_edit_bad_extension [where sf = secure_filename_ascii and s = two_users
      and uid = 1 and now = "''2024-05-01T10:10:00''" and ts = 1714558200
      and form = edit_form, OF h1 h2 h3 h4 h5] p sn na
  show ?thesis by simp
qed

end
